theory Spec2Isabelle
  imports Complex_Main "HOL-Library.Word"
begin

unbundle bit_operations_syntax

section \<open>BundleContext.cpp: the LVM bundle effect context\<close>

text \<open>
  A shallow embedding of \<^verbatim>\<open>media/libeffects/lvm/wrapper/Aidl/BundleContext.cpp\<close>.
  Member variables of \<^verbatim>\<open>BundleContext\<close> become the fields of a record that every
  member function takes and returns; the LVM engine behind \<^verbatim>\<open>mInstance\<close> is a value
  of its own inside that record. The mutex is not modelled: every function is taken as
  running alone. \<^verbatim>\<open>RETURN_VALUE_IF(c, v, msg)\<close> returns \<open>v\<close> when \<open>c\<close> holds; logging is
  left out.
\<close>

subsection \<open>Gain conversion\<close>

text \<open>
  The leading-bit scan of \<^verbatim>\<open>LVC_ToDB_s32Tos16\<close>:
  \<^verbatim>\<open>for (Shift = 0; Shift < 32; Shift++) { if (Remainder & 0x80000000U) break; Remainder <<= 1; }\<close>.
  It returns the final \<^verbatim>\<open>Shift\<close>, which is the number of times the loop body ran to
  its end, and the final \<^verbatim>\<open>Remainder\<close>. \<^verbatim>\<open>Shift\<close> only takes the values 0 to 32 and is
  a natural number here.
\<close>

function scanLeadingBit :: "nat \<Rightarrow> 32 word \<Rightarrow> nat \<times> 32 word" where
  "scanLeadingBit Shift Remainder =
     (if Shift < 32
      then (if Remainder AND 0x80000000 \<noteq> 0 then (Shift, Remainder)
            else scanLeadingBit (Shift + 1) (push_bit 1 Remainder))
      else (Shift, Remainder))"
  by pat_completeness auto
termination
  by (relation "measure (\<lambda>(Shift, Remainder). 32 - Shift)") auto

declare scanLeadingBit.simps [simp del]

text \<open>
  \<^verbatim>\<open>LVM_INT16 LVC_ToDB_s32Tos16(LVM_INT32 Lin_fix)\<close>. The argument is read as
  \<^verbatim>\<open>LVM_UINT32\<close> at once, so it is a 32-bit word here. Every \<^verbatim>\<open>(LVM_INT16)\<close> cast of an
  \<^verbatim>\<open>int\<close> expression is the arithmetic of 16-bit words (the value modulo \<open>2^16\<close>);
  \<^verbatim>\<open>(LVM_UINT16)SmallRemainder >> 9\<close> is the logical shift of the 16-bit word. The result
  is read as a signed number with \<^term>\<open>sint\<close>.
\<close>

definition LVC_ToDB_s32Tos16 :: "32 word \<Rightarrow> 16 word" where
  "LVC_ToDB_s32Tos16 Lin_fix =
     (let (Shift, Remainder) = scanLeadingBit 0 Lin_fix;
          db_fix = (word_of_int (- 96 * int Shift) :: 16 word);
          SmallRemainder = (ucast (drop_bit 24 (Remainder AND 0x7fffffff)) :: 16 word);
          db_fix = db_fix + SmallRemainder;
          SmallRemainder = SmallRemainder * SmallRemainder;
          db_fix = db_fix - drop_bit 9 SmallRemainder;
          db_fix = db_fix - 5
      in db_fix)"

text \<open>
  \<^verbatim>\<open>int16_t VolToDb(uint32_t vol)\<close>. In \<^verbatim>\<open>(dB + 8) >> 4\<close> the 16-bit \<^verbatim>\<open>dB\<close> is promoted to
  \<^verbatim>\<open>int\<close>, so the sum cannot wrap, and the shift of a negative \<^verbatim>\<open>int\<close> is the arithmetic
  one: division by 16 rounding down.
\<close>

definition VolToDb :: "32 word \<Rightarrow> 16 word" where
  "VolToDb vol =
     (let dB = LVC_ToDB_s32Tos16 (push_bit 7 vol);
          dB = (word_of_int ((sint dB + 8) div 16) :: 16 word);
          dB = (if sint dB < - 96 then word_of_int (- 96) else dB)
      in dB)"

text \<open>
  For the proofs, the value of \<^verbatim>\<open>LVC_ToDB_s32Tos16\<close> as a number: with \<open>k\<close> the shift
  count and \<open>s\<close> the seven bits below the top bit of the remainder (\<open>smallOf\<close>), it is
  \<open>- 96 k + s - s\<^sup>2 div 512 - 5\<close>.
\<close>

definition dbShape :: "nat \<Rightarrow> nat \<Rightarrow> int" where
  "dbShape k s = - 96 * int k + int s - int (s * s div 512) - 5"

definition smallOf :: "32 word \<Rightarrow> nat" where
  "smallOf r = (unat r mod 2147483648) div 16777216"

subsection \<open>Constants and types declared outside this file\<close>

text \<open>
  The tables and sizes of namespace \<^verbatim>\<open>lvm\<close> (\<^verbatim>\<open>BundleTypes.h\<close>) are used by this file
  but declared elsewhere, so they are parameters: every function that reads one takes
  the record \<open>K\<close> of them. Tables are functions of the index.
\<close>

record lvm_constants =
  MAX_NUM_BANDS :: nat
  MAX_NUM_PRESETS :: nat
  PRESET_CUSTOM :: int
  kSoftPresets :: "nat \<Rightarrow> nat \<Rightarrow> int"
  kPresetsFrequencies :: "nat \<Rightarrow> int"
  kPresetsQFactors :: "nat \<Rightarrow> int"
  kBandEnergyCoefficient :: "nat \<Rightarrow> real"
  kBandEnergyCrossCoefficient :: "nat \<Rightarrow> real"

text \<open>The enumerators of \<^verbatim>\<open>RetCode\<close> that this file returns.\<close>

datatype RetCode = SUCCESS | ERROR_ILLEGAL_PARAMETER | ERROR_EFFECT_LIB_ERROR

text \<open>The binder status codes that \<^verbatim>\<open>lvmProcess\<close> puts into an \<^verbatim>\<open>IEffect::Status\<close>.\<close>

datatype binder_status = STATUS_OK | EX_NULL_POINTER | EX_ILLEGAL_STATE | EX_UNSUPPORTED_OPERATION

record IEffect_Status =
  status :: binder_status
  fmqConsumed :: int
  fmqProduced :: int

text \<open>
  Modelled from the spec: the declaration of \<^verbatim>\<open>lvm::BundleEffectType\<close> is not part of
  this file. The enumerators are the four effect types the spec's data model names, and
  \<^verbatim>\<open>int(type)\<close> numbers them in that order. Only the bit of \<^verbatim>\<open>EQUALIZER\<close> is ever set or
  cleared by this file.
\<close>

datatype BundleEffectType = EQUALIZER | BASS_BOOST | VIRTUALIZER | VOLUME

fun int_of_BundleEffectType :: "BundleEffectType \<Rightarrow> nat" where
  "int_of_BundleEffectType EQUALIZER = 0"
| "int_of_BundleEffectType BASS_BOOST = 1"
| "int_of_BundleEffectType VIRTUALIZER = 2"
| "int_of_BundleEffectType VOLUME = 3"

text \<open>\<^verbatim>\<open>1 << int(type)\<close> on \<^verbatim>\<open>int\<close>.\<close>

definition effectBit :: "BundleEffectType \<Rightarrow> int" where
  "effectBit t = push_bit (int_of_BundleEffectType t) 1"

text \<open>
  Modelled from the spec: the error taxonomy of the spec (section 7), and the class each
  code of this file falls into by its name. \<^verbatim>\<open>RetCode\<close> has no illegal-state code among
  the ones this file returns; the binder codes have one.
\<close>

datatype error_class =
  IllegalParameter | IllegalState | EngineError | NullPointer | UnsupportedOperation

fun retCodeClass :: "RetCode \<Rightarrow> error_class option" where
  "retCodeClass SUCCESS = None"
| "retCodeClass ERROR_ILLEGAL_PARAMETER = Some IllegalParameter"
| "retCodeClass ERROR_EFFECT_LIB_ERROR = Some EngineError"

fun binderStatusClass :: "binder_status \<Rightarrow> error_class option" where
  "binderStatusClass STATUS_OK = None"
| "binderStatusClass EX_NULL_POINTER = Some NullPointer"
| "binderStatusClass EX_ILLEGAL_STATE = Some IllegalState"
| "binderStatusClass EX_UNSUPPORTED_OPERATION = Some UnsupportedOperation"

subsection \<open>The LVM engine\<close>

text \<open>
  The fields of \<^verbatim>\<open>LVM_ControlParams_t\<close> that the functions below read or write; the
  band definitions behind the pointer \<^verbatim>\<open>pEQNB_BandDefinition\<close> are a list. The struct is
  declared by the LVM library, so the widths of its integer fields are not known here and
  the fields are integers.
\<close>

datatype LVM_EQNB_Mode_en = LVM_EQNB_OFF | LVM_EQNB_ON

record LVM_EQNB_BandDef_t =
  Gain :: int
  Frequency :: int
  QFactor :: int

record LVM_ControlParams_t =
  EQNB_OperatingMode :: LVM_EQNB_Mode_en
  pEQNB_BandDefinition :: "LVM_EQNB_BandDef_t list"
  VC_EffectLevel :: int
  VC_Balance :: int

text \<open>
  This file only compares an engine status with \<^verbatim>\<open>LVM_SUCCESS\<close>; every other value of
  \<^verbatim>\<open>LVM_ReturnStatus_en\<close> is \<open>LVM_FAILED\<close>.
\<close>

datatype LVM_ReturnStatus_en = LVM_SUCCESS | LVM_FAILED

type_synonym sample = real

datatype LVM_call =
    GetControlParameters LVM_ReturnStatus_en
  | SetControlParameters LVM_ControlParams_t LVM_ReturnStatus_en
  | SetVolumeNoSmoothing LVM_ControlParams_t LVM_ReturnStatus_en
  | Process nat LVM_ReturnStatus_en

text \<open>
  Modelled from the spec: the LVM library is an external collaborator (spec, section 6)
  with get-parameters, set-parameters, a no-smoothing volume call and a process call,
  each returning a status. The engine value holds the control parameters last accepted
  (\<open>held\<close>), the statuses its coming calls will return (\<open>replies\<close>, in order;
  \<^verbatim>\<open>LVM_SUCCESS\<close> once the list is used up), what its process call writes to the output
  buffer (\<open>processed\<close>), and the trace of calls made so far (\<open>calls\<close>, oldest first).
  A rejected call changes nothing but the trace.
\<close>

record LVM_Instance =
  held :: LVM_ControlParams_t
  replies :: "LVM_ReturnStatus_en list"
  processed :: "sample list \<Rightarrow> sample list \<Rightarrow> nat \<Rightarrow> sample list"
  calls :: "LVM_call list"

definition nextReply :: "LVM_Instance \<Rightarrow> LVM_ReturnStatus_en \<times> LVM_Instance" where
  "nextReply e = (case replies e of [] \<Rightarrow> (LVM_SUCCESS, e) | r # rs \<Rightarrow> (r, e\<lparr>replies := rs\<rparr>))"

definition LVM_GetControlParameters ::
  "LVM_Instance \<Rightarrow> (LVM_ReturnStatus_en \<times> LVM_ControlParams_t) \<times> LVM_Instance" where
  "LVM_GetControlParameters e =
     (let (r, e') = nextReply e
      in ((r, held e), e'\<lparr>calls := calls e @ [GetControlParameters r]\<rparr>))"

definition LVM_SetControlParameters ::
  "LVM_Instance \<Rightarrow> LVM_ControlParams_t \<Rightarrow> LVM_ReturnStatus_en \<times> LVM_Instance" where
  "LVM_SetControlParameters e params =
     (let (r, e') = nextReply e
      in (r, e'\<lparr>held := (if r = LVM_SUCCESS then params else held e),
                calls := calls e @ [SetControlParameters params r]\<rparr>))"

definition LVM_SetVolumeNoSmoothing ::
  "LVM_Instance \<Rightarrow> LVM_ControlParams_t \<Rightarrow> LVM_ReturnStatus_en \<times> LVM_Instance" where
  "LVM_SetVolumeNoSmoothing e params =
     (let (r, e') = nextReply e
      in (r, e'\<lparr>calls := calls e @ [SetVolumeNoSmoothing params r]\<rparr>))"

definition LVM_Process ::
  "LVM_Instance \<Rightarrow> sample list \<Rightarrow> sample list \<Rightarrow> nat
     \<Rightarrow> (LVM_ReturnStatus_en \<times> sample list) \<times> LVM_Instance" where
  "LVM_Process e inBuf outBuf frames =
     (let (r, e') = nextReply e
      in ((r, if r = LVM_SUCCESS then processed e inBuf outBuf frames else outBuf),
          e'\<lparr>calls := calls e @ [Process frames r]\<rparr>))"

subsection \<open>The context\<close>

text \<open>
  \<^verbatim>\<open>Parameter::VolumeStereo\<close> has two \<^verbatim>\<open>float\<close> fields and \<^verbatim>\<open>Equalizer::BandLevel\<close> an
  index and a level in millibel.
\<close>

record VolumeStereo =
  left :: real
  right :: real

record BandLevel =
  index :: int
  levelMb :: int

text \<open>
  The member variables this file uses. \<^verbatim>\<open>mBandGaindB\<close> is a
  \<^verbatim>\<open>std::array<int, MAX_NUM_BANDS>\<close>: a list whose length is meant to be \<open>MAX_NUM_BANDS K\<close>.
  The \<^verbatim>\<open>int\<close> members are unbounded integers: C++ leaves signed overflow undefined,
  and no statement below depends on a value beyond 32 bits. The two bitmasks are integers
  with the bitwise operations of two's complement. The last three fields are what
  \<^verbatim>\<open>lvmProcess\<close> reads from the base class through \<^verbatim>\<open>getCommon()\<close> and
  \<^verbatim>\<open>getInputFrameSize()\<close>.
\<close>

record BundleContext =
  mType :: BundleEffectType
  mEnabled :: bool
  mInstance :: LVM_Instance
  mSamplesPerSecond :: int
  mSamplesToExitCountEq :: int
  mEffectInDrain :: int
  mEffectProcessCalled :: int
  mNumberEffectsEnabled :: int
  mNumberEffectsCalled :: int
  mFirstVolume :: bool
  mLevelSaved :: int
  mBandGaindB :: "int list"
  mCurPresetIdx :: int
  mVolumeStereo :: VolumeStereo
  inputFrameCount :: int
  outputFrameCount :: int
  inputFrameSize :: nat

subsection \<open>Level limiting\<close>

text \<open>
  The energy estimate of \<^verbatim>\<open>limitLevel\<close>. The source computes it in \<^verbatim>\<open>float\<close> and
  \<^verbatim>\<open>double\<close>; here it is computed in the reals, so it is the source's value only where the
  floating-point operations are exact. They are when every band gain is 0: each product
  and sum is then 0, \<^verbatim>\<open>bandFactorSum\<close> is \<open>-1\<close> and the estimate is \<open>sqrt 0 - 0\<close>.
  Each \<^verbatim>\<open>for\<close> loop over the bands is a fold over the indices.
\<close>

definition energyContributionOf :: "lvm_constants \<Rightarrow> int list \<Rightarrow> real" where
  "energyContributionOf K gains =
     fold (\<lambda>i energyContribution.
             let bandFactor = real_of_int (gains ! i) / 15;
                 bandCoefficient = kBandEnergyCoefficient K i;
                 bandEnergy = bandFactor * bandCoefficient * bandCoefficient
             in if bandEnergy > 0 then energyContribution + bandEnergy else energyContribution)
          [0..<MAX_NUM_BANDS K] 0"

definition crossEnergyOf :: "lvm_constants \<Rightarrow> int list \<Rightarrow> real \<times> real" where
  "crossEnergyOf K gains =
     fold (\<lambda>i (energyCross, bandFactorSum).
             let bandFactor1 = real_of_int (gains ! i) / 15;
                 bandFactor2 = real_of_int (gains ! (i + 1)) / 15
             in if bandFactor1 > 0 \<and> bandFactor2 > 0
                then (let crossEnergy = bandFactor1 * bandFactor2 * kBandEnergyCrossCoefficient K i
                      in (if crossEnergy > 0 then energyCross + crossEnergy else energyCross,
                          bandFactorSum + bandFactor1 * bandFactor2))
                else (energyCross, bandFactorSum))
          [0..<MAX_NUM_BANDS K - 1] (0, 0)"

definition totalEnergyEstimation :: "lvm_constants \<Rightarrow> bool \<Rightarrow> int list \<Rightarrow> real" where
  "totalEnergyEstimation K eqEnabled gains =
     (let energyBassBoost = 0;
          (energyContribution, energyCross, crossCorrection) =
            (if eqEnabled
             then (let (energyCross, bandFactorSum) = crossEnergyOf K gains;
                       bandFactorSum = bandFactorSum - 1
                   in (energyContributionOf K gains, energyCross,
                       if bandFactorSum > 0 then bandFactorSum * 0.7 else 0))
             else (0, 0, 0))
      in sqrt (energyContribution + energyCross + energyBassBoost) - crossCorrection)"

text \<open>The cast \<^verbatim>\<open>(int)x\<close> of a floating-point value drops the fraction.\<close>

definition int_of_double :: "real \<Rightarrow> int" where
  "int_of_double x = (if 0 \<le> x then \<lfloor>x\<rfloor> else \<lceil>x\<rceil>)"

text \<open>
  The roundoff of \<^verbatim>\<open>limitLevel\<close>: from the estimate and \<^verbatim>\<open>mLevelSaved\<close> to the local
  \<^verbatim>\<open>gainCorrection\<close> and the value written to \<^verbatim>\<open>params.VC_EffectLevel\<close>.
\<close>

definition gainCorrectionOf :: "real \<Rightarrow> int \<Rightarrow> int" where
  "gainCorrectionOf estimation levelSaved =
     (let maxLevelRound = int_of_double (estimation + 0.99)
      in if maxLevelRound + levelSaved > 0 then maxLevelRound + levelSaved else 0)"

definition effectLevelOf :: "int \<Rightarrow> int \<Rightarrow> int" where
  "effectLevelOf levelSaved gainCorrection =
     (let level = levelSaved - gainCorrection in if level < - 96 then - 96 else level)"

text \<open>\<^verbatim>\<open>RetCode BundleContext::limitLevel()\<close>.\<close>

definition limitLevel :: "lvm_constants \<Rightarrow> BundleContext \<Rightarrow> RetCode \<times> BundleContext" where
  "limitLevel K ctx =
     (let ((st, params), e) = LVM_GetControlParameters (mInstance ctx);
          ctx = ctx\<lparr>mInstance := e\<rparr>
      in if st \<noteq> LVM_SUCCESS then (ERROR_EFFECT_LIB_ERROR, ctx)
         else
           let eqEnabled = (EQNB_OperatingMode params = LVM_EQNB_ON);
               gainCorrection =
                 gainCorrectionOf (totalEnergyEstimation K eqEnabled (mBandGaindB ctx))
                   (mLevelSaved ctx);
               params = params\<lparr>VC_EffectLevel := effectLevelOf (mLevelSaved ctx) gainCorrection\<rparr>;
               (st, e) = LVM_SetControlParameters (mInstance ctx) params;
               ctx = ctx\<lparr>mInstance := e\<rparr>
           in if st \<noteq> LVM_SUCCESS then (ERROR_EFFECT_LIB_ERROR, ctx)
              else if mFirstVolume ctx
              then (let (st, e) = LVM_SetVolumeNoSmoothing (mInstance ctx) params;
                        ctx = ctx\<lparr>mInstance := e\<rparr>
                    in if st \<noteq> LVM_SUCCESS then (ERROR_EFFECT_LIB_ERROR, ctx)
                       else (SUCCESS, ctx\<lparr>mFirstVolume := False\<rparr>))
              else (SUCCESS, ctx))"

subsection \<open>Enable and disable\<close>

text \<open>
  \<^verbatim>\<open>mSamplesToExitCountEq = (mSamplesPerSecond * 0.1)\<close> multiplies in \<^verbatim>\<open>double\<close> and
  converts back to \<^verbatim>\<open>int\<close>. The double nearest to 0.1 exceeds 0.1 by less than \<open>10^-17\<close>,
  so for a 32-bit rate the product lies between the exact tenth and the next integer,
  and the conversion yields the quotient by 10, rounded towards zero.
\<close>

definition tenthOf :: "int \<Rightarrow> int" where
  "tenthOf samplesPerSecond =
     (if 0 \<le> samplesPerSecond then samplesPerSecond div 10 else - (- samplesPerSecond div 10))"

text \<open>\<^verbatim>\<open>RetCode BundleContext::enableOperatingMode()\<close>.\<close>

definition enableOperatingMode :: "lvm_constants \<Rightarrow> BundleContext \<Rightarrow> RetCode \<times> BundleContext" where
  "enableOperatingMode K ctx =
     (let ((st, params), e) = LVM_GetControlParameters (mInstance ctx);
          ctx = ctx\<lparr>mInstance := e\<rparr>
      in if st \<noteq> LVM_SUCCESS then (ERROR_EFFECT_LIB_ERROR, ctx)
         else
           let params = (case mType ctx of
                           EQUALIZER \<Rightarrow> params\<lparr>EQNB_OperatingMode := LVM_EQNB_ON\<rparr>
                         | _ \<Rightarrow> params);
               (st, e) = LVM_SetControlParameters (mInstance ctx) params;
               ctx = ctx\<lparr>mInstance := e\<rparr>
           in if st \<noteq> LVM_SUCCESS then (ERROR_EFFECT_LIB_ERROR, ctx)
              else limitLevel K ctx)"

text \<open>\<^verbatim>\<open>RetCode BundleContext::enable()\<close>.\<close>

definition enable :: "lvm_constants \<Rightarrow> BundleContext \<Rightarrow> RetCode \<times> BundleContext" where
  "enable K ctx =
     (if mEnabled ctx then (ERROR_ILLEGAL_PARAMETER, ctx)
      else
        let ctx = (case mType ctx of
                     EQUALIZER \<Rightarrow>
                       (let ctx = (if mSamplesToExitCountEq ctx \<le> 0
                                   then ctx\<lparr>mNumberEffectsEnabled := mNumberEffectsEnabled ctx + 1\<rparr>
                                   else ctx);
                            ctx = ctx\<lparr>mSamplesToExitCountEq := tenthOf (mSamplesPerSecond ctx)\<rparr>
                        in ctx\<lparr>mEffectInDrain := mEffectInDrain ctx AND NOT (effectBit EQUALIZER)\<rparr>)
                   | _ \<Rightarrow> ctx);
            ctx = ctx\<lparr>mEnabled := True\<rparr>
        in enableOperatingMode K ctx)"

text \<open>\<^verbatim>\<open>RetCode BundleContext::disableOperatingMode()\<close>.\<close>

definition disableOperatingMode :: "lvm_constants \<Rightarrow> BundleContext \<Rightarrow> RetCode \<times> BundleContext" where
  "disableOperatingMode K ctx =
     (let ((st, params), e) = LVM_GetControlParameters (mInstance ctx);
          ctx = ctx\<lparr>mInstance := e\<rparr>
      in if st \<noteq> LVM_SUCCESS then (ERROR_EFFECT_LIB_ERROR, ctx)
         else
           let params = (case mType ctx of
                           EQUALIZER \<Rightarrow> params\<lparr>EQNB_OperatingMode := LVM_EQNB_OFF\<rparr>
                         | _ \<Rightarrow> params);
               (st, e) = LVM_SetControlParameters (mInstance ctx) params;
               ctx = ctx\<lparr>mInstance := e\<rparr>
           in if st \<noteq> LVM_SUCCESS then (ERROR_EFFECT_LIB_ERROR, ctx)
              else limitLevel K (ctx\<lparr>mEnabled := False\<rparr>))"

text \<open>\<^verbatim>\<open>RetCode BundleContext::disable()\<close>.\<close>

definition disable :: "lvm_constants \<Rightarrow> BundleContext \<Rightarrow> RetCode \<times> BundleContext" where
  "disable K ctx =
     (if \<not> mEnabled ctx then (ERROR_ILLEGAL_PARAMETER, ctx)
      else
        let ctx = (case mType ctx of
                     EQUALIZER \<Rightarrow>
                       ctx\<lparr>mEffectInDrain := mEffectInDrain ctx OR effectBit EQUALIZER\<rparr>
                   | _ \<Rightarrow> ctx);
            ctx = ctx\<lparr>mEnabled := False\<rparr>
        in disableOperatingMode K ctx)"

subsection \<open>Volume and equalizer parameters\<close>

text \<open>
  \<^verbatim>\<open>VolToDb(volume.left)\<close> converts the \<^verbatim>\<open>float\<close> to \<^verbatim>\<open>uint32_t\<close>: the fraction is dropped.
  For a value outside the range of \<^verbatim>\<open>uint32_t\<close> C++ leaves the conversion undefined; the
  word of the truncated value stands for it here, and no theorem below depends on it.
\<close>

definition uint32_of_float :: "real \<Rightarrow> 32 word" where
  "uint32_of_float x = word_of_int (int_of_double x)"

text \<open>\<^verbatim>\<open>RetCode BundleContext::setVolumeStereo(const Parameter::VolumeStereo& volume)\<close>.\<close>

definition setVolumeStereo :: "VolumeStereo \<Rightarrow> BundleContext \<Rightarrow> RetCode \<times> BundleContext" where
  "setVolumeStereo volume ctx =
     (let leftdB = sint (VolToDb (uint32_of_float (left volume)));
          rightdB = sint (VolToDb (uint32_of_float (right volume)));
          maxdB = max leftdB rightdB;
          pandB = rightdB - leftdB;
          ((st, params), e) = LVM_GetControlParameters (mInstance ctx);
          ctx = ctx\<lparr>mInstance := e\<rparr>
      in if st \<noteq> LVM_SUCCESS then (ERROR_EFFECT_LIB_ERROR, ctx)
         else
           let params = params\<lparr>VC_Balance := pandB\<rparr>;
               (st, e) = LVM_SetControlParameters (mInstance ctx) params;
               ctx = ctx\<lparr>mInstance := e\<rparr>
           in if st \<noteq> LVM_SUCCESS then (ERROR_EFFECT_LIB_ERROR, ctx)
              else (SUCCESS, ctx\<lparr>mVolumeStereo := volume\<rparr>))"

text \<open>
  \<^verbatim>\<open>bool BundleContext::isBandLevelIndexInRange(bandLevels)\<close>. \<^verbatim>\<open>std::minmax_element\<close>
  yields the first entry with the least index and the last entry with the greatest one.
  On an empty vector both iterators are the end iterator and dereferencing them is
  undefined: the model returns \<open>None\<close> there.
\<close>

definition isBandLevelIndexInRange :: "lvm_constants \<Rightarrow> BandLevel list \<Rightarrow> bool option" where
  "isBandLevelIndexInRange K bandLevels =
     (case bandLevels of
        [] \<Rightarrow> None
      | b # bs \<Rightarrow>
          (let minL = fold (\<lambda>a m. if index a < index m then a else m) bs b;
               maxL = fold (\<lambda>a m. if index a < index m then m else a) bs b
           in Some (index minL \<ge> 0 \<and> index maxL < int (MAX_NUM_BANDS K))))"

text \<open>
  \<^verbatim>\<open>RetCode BundleContext::updateControlParameter(bandLevels)\<close>. The local array
  \<^verbatim>\<open>tempLevel\<close> is declared without an initialiser, so it starts with whatever the stack
  holds: the argument \<open>uninit\<close> gives that content, slot by slot.
  The loop over \<^verbatim>\<open>bandLevels\<close> stores into it in order, which is a fold of list updates; the
  range check before it keeps every index inside the array. The loop over the bands
  overwrites the first \<open>MAX_NUM_BANDS K\<close> band definitions behind
  \<^verbatim>\<open>params.pEQNB_BandDefinition\<close>.
\<close>

definition updateControlParameter ::
  "lvm_constants \<Rightarrow> (nat \<Rightarrow> int) \<Rightarrow> BandLevel list \<Rightarrow> BundleContext
     \<Rightarrow> (RetCode \<times> BundleContext) option" where
  "updateControlParameter K uninit bandLevels ctx =
     (case isBandLevelIndexInRange K bandLevels of
        None \<Rightarrow> None
      | Some False \<Rightarrow> Some (ERROR_ILLEGAL_PARAMETER, ctx)
      | Some True \<Rightarrow>
          (let tempLevel = fold (\<lambda>it t. t[nat (index it) := levelMb it]) bandLevels
                             (map uninit [0..<MAX_NUM_BANDS K]);
               ((st, params), e) = LVM_GetControlParameters (mInstance ctx);
               ctx = ctx\<lparr>mInstance := e\<rparr>
           in if st \<noteq> LVM_SUCCESS then Some (ERROR_EFFECT_LIB_ERROR, ctx)
              else
                let params = params\<lparr>pEQNB_BandDefinition :=
                               map (\<lambda>i. \<lparr>Gain = tempLevel ! i,
                                          Frequency = kPresetsFrequencies K i,
                                          QFactor = kPresetsQFactors K i\<rparr>)
                                   [0..<MAX_NUM_BANDS K]
                               @ drop (MAX_NUM_BANDS K) (pEQNB_BandDefinition params)\<rparr>;
                    (st, e) = LVM_SetControlParameters (mInstance ctx) params;
                    ctx = ctx\<lparr>mInstance := e\<rparr>
                in if st \<noteq> LVM_SUCCESS then Some (ERROR_EFFECT_LIB_ERROR, ctx)
                   else Some (SUCCESS, ctx\<lparr>mBandGaindB := tempLevel\<rparr>)))"

text \<open>
  \<^verbatim>\<open>RetCode BundleContext::setEqualizerPreset(const std::size_t presetIdx)\<close>. The index is
  unsigned, so \<^verbatim>\<open>presetIdx < 0\<close> never holds.
\<close>

definition setEqualizerPreset ::
  "lvm_constants \<Rightarrow> (nat \<Rightarrow> int) \<Rightarrow> nat \<Rightarrow> BundleContext
     \<Rightarrow> (RetCode \<times> BundleContext) option" where
  "setEqualizerPreset K uninit presetIdx ctx =
     (if presetIdx \<ge> MAX_NUM_PRESETS K then Some (ERROR_ILLEGAL_PARAMETER, ctx)
      else
        let bandLevels = map (\<lambda>i. \<lparr>index = int i, levelMb = kSoftPresets K presetIdx i\<rparr>)
                             [0..<MAX_NUM_BANDS K]
        in case updateControlParameter K uninit bandLevels ctx of
             None \<Rightarrow> None
           | Some (ret, ctx) \<Rightarrow>
               if ret = SUCCESS then Some (ret, ctx\<lparr>mCurPresetIdx := int presetIdx\<rparr>)
               else Some (ret, ctx))"

text \<open>\<^verbatim>\<open>RetCode BundleContext::setEqualizerBandLevels(bandLevels)\<close>.\<close>

definition setEqualizerBandLevels ::
  "lvm_constants \<Rightarrow> (nat \<Rightarrow> int) \<Rightarrow> BandLevel list \<Rightarrow> BundleContext
     \<Rightarrow> (RetCode \<times> BundleContext) option" where
  "setEqualizerBandLevels K uninit bandLevels ctx =
     (if length bandLevels > MAX_NUM_BANDS K \<or> bandLevels = []
      then Some (ERROR_ILLEGAL_PARAMETER, ctx)
      else case updateControlParameter K uninit bandLevels ctx of
             None \<Rightarrow> None
           | Some (ret, ctx) \<Rightarrow>
               if ret = SUCCESS then Some (ret, ctx\<lparr>mCurPresetIdx := PRESET_CUSTOM K\<rparr>)
               else Some (ret, ctx))"

text \<open>\<^verbatim>\<open>std::vector<Equalizer::BandLevel> BundleContext::getEqualizerBandLevels() const\<close>.\<close>

definition getEqualizerBandLevels :: "lvm_constants \<Rightarrow> BundleContext \<Rightarrow> BandLevel list" where
  "getEqualizerBandLevels K ctx =
     map (\<lambda>i. \<lparr>index = int i, levelMb = mBandGaindB ctx ! i\<rparr>) [0..<MAX_NUM_BANDS K]"

subsection \<open>Processing a buffer\<close>

text \<open>
  The bookkeeping of \<^verbatim>\<open>lvmProcess\<close>, from the test of \<^verbatim>\<open>mEffectProcessCalled\<close> to the
  increment of \<^verbatim>\<open>mNumberEffectsCalled\<close>, as a function of its own so that the local
  \<^verbatim>\<open>isDataAvailable\<close> can be observed: it returns that local and the context.
\<close>

definition drainAccounting :: "BundleContext \<Rightarrow> int \<Rightarrow> bool \<times> BundleContext" where
  "drainAccounting ctx samples =
     (let ctx =
            (if mEffectProcessCalled ctx AND effectBit (mType ctx) \<noteq> 0
             then (let undrainedEffects = mEffectInDrain ctx AND NOT (mEffectProcessCalled ctx)
                   in if undrainedEffects AND effectBit EQUALIZER \<noteq> 0
                      then ctx\<lparr>mSamplesToExitCountEq := 0,
                               mNumberEffectsEnabled := mNumberEffectsEnabled ctx - 1,
                               mEffectInDrain := mEffectInDrain ctx AND NOT (effectBit EQUALIZER)\<rparr>
                      else ctx)
             else ctx);
          ctx = ctx\<lparr>mEffectProcessCalled := mEffectProcessCalled ctx OR effectBit (mType ctx)\<rparr>;
          (isDataAvailable, ctx) =
            (if \<not> mEnabled ctx
             then (case mType ctx of
                     EQUALIZER \<Rightarrow>
                       (let ctx = (if mSamplesToExitCountEq ctx > 0
                                   then ctx\<lparr>mSamplesToExitCountEq :=
                                              mSamplesToExitCountEq ctx - samples\<rparr>
                                   else ctx)
                        in if mSamplesToExitCountEq ctx \<le> 0
                           then (False,
                                 if mEffectInDrain ctx AND effectBit EQUALIZER \<noteq> 0
                                 then ctx\<lparr>mNumberEffectsEnabled := mNumberEffectsEnabled ctx - 1,
                                          mEffectInDrain :=
                                            mEffectInDrain ctx AND NOT (effectBit EQUALIZER)\<rparr>
                                 else ctx)
                           else (True, ctx))
                   | _ \<Rightarrow> (True, ctx))
             else (True, ctx));
          ctx = (if isDataAvailable
                 then ctx\<lparr>mNumberEffectsCalled := mNumberEffectsCalled ctx + 1\<rparr> else ctx)
      in (isDataAvailable, ctx))"

text \<open>
  \<^verbatim>\<open>LVM_UINT16 frames = samples * sizeof(float) / frameSize\<close>: the \<^verbatim>\<open>int\<close> is converted to
  the 64-bit \<^verbatim>\<open>size_t\<close>, multiplied by 4 and divided there, and the quotient is cut to 16
  bits.
\<close>

definition framesOf :: "int \<Rightarrow> nat \<Rightarrow> nat" where
  "framesOf samples frameSize =
     (nat (samples mod 2 ^ 64) * 4 mod 2 ^ 64) div frameSize mod 2 ^ 16"

text \<open>
  \<^verbatim>\<open>IEffect::Status BundleContext::lvmProcess(float* in, float* out, int samples)\<close>. A
  buffer is \<open>None\<close> for a null pointer and the list of its samples otherwise; the
  function returns the status, the output buffer after the call and the context. The local
  \<^verbatim>\<open>accumulate\<close> is always \<^verbatim>\<open>false\<close>, so \<^verbatim>\<open>outTmp\<close> is \<^verbatim>\<open>out\<close> and the copy loop is
  \<^verbatim>\<open>out[i] = in[i]\<close> for \<^verbatim>\<open>i < samples\<close>, which takes both buffers to hold that many
  samples.
\<close>

definition lvmProcess ::
  "BundleContext \<Rightarrow> sample list option \<Rightarrow> sample list option \<Rightarrow> int
     \<Rightarrow> IEffect_Status \<times> sample list option \<times> BundleContext" where
  "lvmProcess ctx inp out samples =
     (case inp of
        None \<Rightarrow> (\<lparr>status = EX_NULL_POINTER, fmqConsumed = 0, fmqProduced = 0\<rparr>, out, ctx)
      | Some inBuf \<Rightarrow>
     (case out of
        None \<Rightarrow> (\<lparr>status = EX_NULL_POINTER, fmqConsumed = 0, fmqProduced = 0\<rparr>, out, ctx)
      | Some outBuf \<Rightarrow>
          if inputFrameCount ctx \<noteq> outputFrameCount ctx
          then (\<lparr>status = EX_ILLEGAL_STATE, fmqConsumed = 0, fmqProduced = 0\<rparr>, out, ctx)
          else if 0 = inputFrameSize ctx
          then (\<lparr>status = EX_ILLEGAL_STATE, fmqConsumed = 0, fmqProduced = 0\<rparr>, out, ctx)
          else
            let (isDataAvailable, ctx) = drainAccounting ctx samples
            in if mNumberEffectsCalled ctx \<ge> mNumberEffectsEnabled ctx
               then (let ctx = ctx\<lparr>mEffectProcessCalled := 0\<rparr>;
                         ctx = ctx\<lparr>mNumberEffectsCalled := 0\<rparr>;
                         frames = framesOf samples (inputFrameSize ctx);
                         ((lvmStatus, outTmp), e) = LVM_Process (mInstance ctx) inBuf outBuf frames;
                         ctx = ctx\<lparr>mInstance := e\<rparr>
                     in if lvmStatus \<noteq> LVM_SUCCESS
                        then (\<lparr>status = EX_UNSUPPORTED_OPERATION, fmqConsumed = 0,
                               fmqProduced = 0\<rparr>, Some outTmp, ctx)
                        else (\<lparr>status = STATUS_OK, fmqConsumed = samples,
                               fmqProduced = samples\<rparr>, Some outTmp, ctx))
               else (\<lparr>status = STATUS_OK, fmqConsumed = samples, fmqProduced = samples\<rparr>,
                     Some (take (nat samples) inBuf @ drop (nat samples) outBuf), ctx)))"

subsection \<open>Observing the engine and a session\<close>

text \<open>
  What a call of the context did to the engine is read off the trace: \<open>newCalls ctx ctx'\<close>
  are the engine calls made on the way from \<open>ctx\<close> to \<open>ctx'\<close>.
\<close>

fun callOk :: "LVM_call \<Rightarrow> bool" where
  "callOk (GetControlParameters r) = (r = LVM_SUCCESS)"
| "callOk (SetControlParameters p r) = (r = LVM_SUCCESS)"
| "callOk (SetVolumeNoSmoothing p r) = (r = LVM_SUCCESS)"
| "callOk (Process n r) = (r = LVM_SUCCESS)"

fun isNoSmoothing :: "LVM_call \<Rightarrow> bool" where
  "isNoSmoothing (SetVolumeNoSmoothing p r) = True"
| "isNoSmoothing c = False"

fun isProcess :: "LVM_call \<Rightarrow> bool" where
  "isProcess (Process n r) = True"
| "isProcess c = False"

text \<open>The volume-control level that a call pushes to the engine, if it pushes parameters.\<close>

fun pushedLevel :: "LVM_call \<Rightarrow> int option" where
  "pushedLevel (SetControlParameters p r) = Some (VC_EffectLevel p)"
| "pushedLevel c = None"

definition newCalls :: "BundleContext \<Rightarrow> BundleContext \<Rightarrow> LVM_call list" where
  "newCalls ctx ctx' = drop (length (calls (mInstance ctx))) (calls (mInstance ctx'))"

text \<open>The in-memory mirror of the engine parameters that the setters maintain.\<close>

definition mirror :: "BundleContext \<Rightarrow> int list \<times> int \<times> VolumeStereo" where
  "mirror ctx = (mBandGaindB ctx, mCurPresetIdx ctx, mVolumeStereo ctx)"

text \<open>
  A session is a sequence of calls of the member functions on one context. A call whose
  behaviour is undefined ends it with \<open>None\<close>.
\<close>

datatype session_call =
    Enable
  | Disable
  | LimitLevel
  | SetVolumeStereo VolumeStereo
  | SetEqualizerPreset "nat \<Rightarrow> int" nat
  | SetEqualizerBandLevels "nat \<Rightarrow> int" "BandLevel list"
  | LvmProcess "sample list option" "sample list option" int

fun contextAfter :: "lvm_constants \<Rightarrow> session_call \<Rightarrow> BundleContext \<Rightarrow> BundleContext option" where
  "contextAfter K Enable ctx = Some (snd (enable K ctx))"
| "contextAfter K Disable ctx = Some (snd (disable K ctx))"
| "contextAfter K LimitLevel ctx = Some (snd (limitLevel K ctx))"
| "contextAfter K (SetVolumeStereo volume) ctx = Some (snd (setVolumeStereo volume ctx))"
| "contextAfter K (SetEqualizerPreset uninit presetIdx) ctx =
     map_option snd (setEqualizerPreset K uninit presetIdx ctx)"
| "contextAfter K (SetEqualizerBandLevels uninit bandLevels) ctx =
     map_option snd (setEqualizerBandLevels K uninit bandLevels ctx)"
| "contextAfter K (LvmProcess inp out samples) ctx = Some (snd (snd (lvmProcess ctx inp out samples)))"

fun sessionAfter :: "lvm_constants \<Rightarrow> session_call list \<Rightarrow> BundleContext \<Rightarrow> BundleContext option" where
  "sessionAfter K [] ctx = Some ctx"
| "sessionAfter K (c # cs) ctx =
     (case contextAfter K c ctx of None \<Rightarrow> None | Some ctx' \<Rightarrow> sessionAfter K cs ctx')"

text \<open>
  A run of \<^verbatim>\<open>lvmProcess\<close> calls on the same pair of buffers, one call for each sample
  count of the list: the context at its end, and for every call whether
  \<^verbatim>\<open>isDataAvailable\<close> stayed true, whether the engine's process call was made, and
  \<^verbatim>\<open>mNumberEffectsEnabled\<close> after the call.
\<close>

fun lvmProcessAll :: "BundleContext \<Rightarrow> sample list \<Rightarrow> sample list \<Rightarrow> int list \<Rightarrow> BundleContext" where
  "lvmProcessAll ctx inBuf outBuf [] = ctx"
| "lvmProcessAll ctx inBuf outBuf (n # ns) =
     (let (st, out', ctx') = lvmProcess ctx (Some inBuf) (Some outBuf) n
      in lvmProcessAll ctx' inBuf (case out' of None \<Rightarrow> outBuf | Some b \<Rightarrow> b) ns)"

fun lvmProcessRun ::
  "BundleContext \<Rightarrow> sample list \<Rightarrow> sample list \<Rightarrow> int list \<Rightarrow> (bool \<times> bool \<times> int) list" where
  "lvmProcessRun ctx inBuf outBuf [] = []"
| "lvmProcessRun ctx inBuf outBuf (n # ns) =
     (let (st, out', ctx') = lvmProcess ctx (Some inBuf) (Some outBuf) n
      in (fst (drainAccounting ctx n), list_ex isProcess (newCalls ctx ctx'),
          mNumberEffectsEnabled ctx')
         # lvmProcessRun ctx' inBuf (case out' of None \<Rightarrow> outBuf | Some b \<Rightarrow> b) ns)"

text \<open>
  The drain as the claim words it, for a budget \<open>B\<close> and the samples \<open>done\<close> since the
  disable: a call leaves data available and the enabled count at 1 while the
  cumulative count stays below the budget, and the engine processes every buffer.
\<close>

fun drainExpected :: "int \<Rightarrow> int \<Rightarrow> int list \<Rightarrow> (bool \<times> bool \<times> int) list" where
  "drainExpected B done [] = []"
| "drainExpected B done (n # ns) =
     (done + n < B, True, if done + n < B then 1 else 0) # drainExpected B (done + n) ns"

text \<open>
  The level a band-level update assigns to band \<open>i\<close>: that of its last entry for \<open>i\<close>,
  and \<open>v\<close> when it has none.
\<close>

definition lastLevel :: "int \<Rightarrow> BandLevel list \<Rightarrow> int \<Rightarrow> int" where
  "lastLevel i bandLevels v = fold (\<lambda>it v. if index it = i then levelMb it else v) bandLevels v"

subsection \<open>Predicates of the statements below\<close>

text \<open>
  The rule of the first-volume flag, for the flag before, the no-smoothing calls \<open>ns\<close>
  made since (oldest first) and the flag after: every such call but the last was rejected
  by the engine, the flag is still set exactly when it was set and all of them were
  rejected, and none is made when the flag was clear from the start.
\<close>

definition firstVolumeRule :: "bool \<Rightarrow> LVM_call list \<Rightarrow> bool \<Rightarrow> bool" where
  "firstVolumeRule flag ns flag' =
     (list_all (\<lambda>c. \<not> callOk c) (butlast ns)
      \<and> (flag' = (flag \<and> list_all (\<lambda>c. \<not> callOk c) ns))
      \<and> (flag \<or> ns = []))"

text \<open>
  From \<open>ctx\<close> to \<open>ctx'\<close> the trace of the engine has only grown, and the first-volume
  rule holds for what was added.
\<close>

definition traced :: "BundleContext \<Rightarrow> BundleContext \<Rightarrow> bool" where
  "traced ctx ctx' =
     (calls (mInstance ctx') = calls (mInstance ctx) @ newCalls ctx ctx'
      \<and> firstVolumeRule (mFirstVolume ctx) (filter isNoSmoothing (newCalls ctx ctx'))
            (mFirstVolume ctx'))"

text \<open>
  The commit rule of a setter that went from \<open>ctx\<close> to \<open>ctx'\<close> and returned \<open>ret\<close>:
  if the engine rejected one of its calls the setter returns the engine error and the
  mirror is as before; the mirror is as before after every failure; and a mirror that
  changed comes with an accepted read and an accepted write of the parameters the engine
  now holds.
\<close>

definition commitRule :: "BundleContext \<Rightarrow> RetCode \<Rightarrow> BundleContext \<Rightarrow> bool" where
  "commitRule ctx ret ctx' =
     ((\<not> list_all callOk (newCalls ctx ctx') \<longrightarrow>
         ret = ERROR_EFFECT_LIB_ERROR \<and> mirror ctx' = mirror ctx)
      \<and> (ret \<noteq> SUCCESS \<longrightarrow> mirror ctx' = mirror ctx)
      \<and> (mirror ctx' \<noteq> mirror ctx \<longrightarrow>
            newCalls ctx ctx' =
              [GetControlParameters LVM_SUCCESS,
               SetControlParameters (held (mInstance ctx')) LVM_SUCCESS]))"

text \<open>
  Three states of an equalizer context that is the only effect of its bundle: enabled and
  counted once (\<open>running\<close>), disabled with its drain pending and \<open>B\<close> samples left of
  the budget (\<open>draining\<close>), and disabled with the drain over (\<open>drained\<close>). In each the
  frame counts agree and the frame size is not 0, so \<^verbatim>\<open>lvmProcess\<close> passes its checks.
\<close>

definition running :: "BundleContext \<Rightarrow> bool" where
  "running ctx =
     (mType ctx = EQUALIZER \<and> mEnabled ctx
      \<and> mNumberEffectsEnabled ctx = 1 \<and> mNumberEffectsCalled ctx = 0
      \<and> inputFrameCount ctx = outputFrameCount ctx \<and> inputFrameSize ctx \<noteq> 0)"

definition draining :: "int \<Rightarrow> BundleContext \<Rightarrow> bool" where
  "draining B ctx =
     (mType ctx = EQUALIZER \<and> \<not> mEnabled ctx
      \<and> mEffectInDrain ctx AND effectBit EQUALIZER \<noteq> 0
      \<and> mSamplesToExitCountEq ctx = B
      \<and> mNumberEffectsEnabled ctx = 1 \<and> mNumberEffectsCalled ctx = 0
      \<and> inputFrameCount ctx = outputFrameCount ctx \<and> inputFrameSize ctx \<noteq> 0)"

definition drained :: "BundleContext \<Rightarrow> bool" where
  "drained ctx =
     (mType ctx = EQUALIZER \<and> \<not> mEnabled ctx
      \<and> mEffectInDrain ctx AND effectBit EQUALIZER = 0
      \<and> mSamplesToExitCountEq ctx \<le> 0
      \<and> mNumberEffectsEnabled ctx = 0 \<and> mNumberEffectsCalled ctx = 0
      \<and> inputFrameCount ctx = outputFrameCount ctx \<and> inputFrameSize ctx \<noteq> 0)"

subsection \<open>A concrete context\<close>

text \<open>
  Five bands, ten presets and an equalizer context in its initial state on an engine that
  accepts every call and writes silence; used where a statement is evaluated.
\<close>

definition exampleK :: lvm_constants where
  "exampleK = \<lparr>MAX_NUM_BANDS = 5, MAX_NUM_PRESETS = 10, PRESET_CUSTOM = - 1,
     kSoftPresets = (\<lambda>p i. if p = 0 \<and> (i = 0 \<or> i = 4) then 3 else 0),
     kPresetsFrequencies = (\<lambda>i. [60, 230, 910, 3600, 14000] ! i),
     kPresetsQFactors = (\<lambda>i. 96),
     kBandEnergyCoefficient = (\<lambda>i. 1),
     kBandEnergyCrossCoefficient = (\<lambda>i. 1)\<rparr>"

definition exampleEngine :: LVM_Instance where
  "exampleEngine = \<lparr>held = \<lparr>EQNB_OperatingMode = LVM_EQNB_OFF, pEQNB_BandDefinition = [],
                             VC_EffectLevel = 0, VC_Balance = 0\<rparr>,
                     replies = [],
                     processed = (\<lambda>inBuf outBuf frames. map (\<lambda>x. 0) outBuf),
                     calls = []\<rparr>"

definition exampleCtx :: BundleContext where
  "exampleCtx = \<lparr>mType = EQUALIZER, mEnabled = False, mInstance = exampleEngine,
      mSamplesPerSecond = 44100, mSamplesToExitCountEq = 0, mEffectInDrain = 0,
      mEffectProcessCalled = 0, mNumberEffectsEnabled = 0, mNumberEffectsCalled = 0,
      mFirstVolume = True, mLevelSaved = 0, mBandGaindB = [0, 0, 0, 0, 0],
      mCurPresetIdx = - 1, mVolumeStereo = \<lparr>left = 1, right = 1\<rparr>,
      inputFrameCount = 1, outputFrameCount = 1, inputFrameSize = 8\<rparr>"

text \<open>The same context on an engine whose coming calls return the statuses \<open>rs\<close>.\<close>

definition exampleCtxWith :: "LVM_ReturnStatus_en list \<Rightarrow> BundleContext" where
  "exampleCtxWith rs = exampleCtx\<lparr>mInstance := exampleEngine\<lparr>replies := rs\<rparr>\<rparr>"

text \<open>
  A drain in small numbers: 100 samples per second, so a budget of 10; 4 samples processed
  while enabled, the disable, and 6 samples processed since, on buffers of 6 samples.
\<close>

definition exampleDrainCtx :: BundleContext where
  "exampleDrainCtx =
     lvmProcessAll
       (snd (disable exampleK
          (lvmProcessAll (snd (enable exampleK (exampleCtx\<lparr>mSamplesPerSecond := 100\<rparr>)))
             [1, 1, 1, 1, 1, 1] [2, 2, 2, 2, 2, 2] [4])))
       [1, 1, 1, 1, 1, 1] [2, 2, 2, 2, 2, 2] [6]"

section \<open>Properties of the gain conversion\<close>

subsection \<open>The scan in terms of numbers\<close>

lemma unat_lt32: "unat (r :: 32 word) < 4294967296"
  using unsigned_less [of r, where 'a = nat] by simp

lemma topbit_iff: "(r AND 0x80000000 \<noteq> 0) = (2147483648 \<le> unat (r :: 32 word))"
proof -
  have "(r AND 2 ^ 31 = 0) = (\<not> bit r 31)"
    by (rule and_exp_eq_0_iff_not_bit)
  moreover have "bit r 31 = bit (unat r) 31"
    by (simp add: bit_unsigned_iff)
  moreover have "bit (unat r) 31 = odd (unat r div 2 ^ 31)"
    by (simp only: bit_iff_odd)
  moreover have "odd (unat r div 2 ^ 31) = (2147483648 \<le> unat r)"
  proof (cases "2147483648 \<le> unat r")
    case True
    then have "unat r div 2147483648 = 1" using unat_lt32 [of r] by simp
    with True show ?thesis by simp
  next
    case False
    then show ?thesis by simp
  qed
  ultimately show ?thesis by simp
qed

lemma unat_shl1:
  assumes small: "unat (r :: 32 word) < 2147483648"
  shows "unat (push_bit 1 r) = 2 * unat r"
proof -
  have "unat (2 :: 32 word) * unat r < 2 ^ LENGTH(32)" using small by simp
  then have "unat (2 * r) = unat (2 :: 32 word) * unat r"
    by (simp only: unat_mult_lem)
  then show ?thesis by (simp add: push_bit_eq_mult mult.commute)
qed

lemma lowbits:
  "unat (drop_bit 24 ((r :: 32 word) AND 0x7fffffff)) = (unat r mod 2147483648) div 16777216"
proof -
  have "(0x7fffffff :: 32 word) = mask 31" by (simp add: mask_eq_exp_minus_1)
  then have "r AND 0x7fffffff = take_bit 31 r" by (simp add: take_bit_eq_mask)
  then show ?thesis
    by (simp add: take_bit_eq_mod drop_bit_eq_div unat_div_distrib unat_mod_distrib)
qed

text \<open>
  What the scan leaves: the remainder is the input shifted left without loss, and unless
  all 32 rounds ran its top bit is set.
\<close>

lemma scan_inv:
  "Shift \<le> 32 \<Longrightarrow> scanLeadingBit Shift r0 = (k, r) \<Longrightarrow>
     Shift \<le> k \<and> k \<le> 32 \<and> unat r = unat r0 * 2 ^ (k - Shift) \<and>
     (k < 32 \<longrightarrow> 2147483648 \<le> unat r)"
proof (induction Shift r0 rule: scanLeadingBit.induct)
  case (1 Shift Remainder)
  show ?case
  proof (cases "Shift < 32")
    case False
    with "1.prems" show ?thesis by (simp add: scanLeadingBit.simps)
  next
    case lt: True
    show ?thesis
    proof (cases "Remainder AND 0x80000000 \<noteq> 0")
      case True
      with lt "1.prems" show ?thesis
        by (auto simp: scanLeadingBit.simps [of Shift] topbit_iff)
    next
      case False
      then have small: "unat Remainder < 2147483648"
        by (simp add: topbit_iff)
      define R' where "R' = push_bit 1 Remainder"
      have u: "unat R' = 2 * unat Remainder"
        unfolding R'_def by (rule unat_shl1 [OF small])
      from False lt "1.prems"
      have rec: "scanLeadingBit (Shift + 1) (push_bit 1 Remainder) = (k, r)"
        by (simp add: scanLeadingBit.simps [of Shift])
      from lt have "Shift + 1 \<le> 32" by simp
      from "1.IH" [OF lt False this rec]
      have ih: "Shift + 1 \<le> k" "k \<le> 32"
        "unat r = unat R' * 2 ^ (k - (Shift + 1))"
        "k < 32 \<longrightarrow> 2147483648 \<le> unat r"
        unfolding R'_def by blast+
      have "k - Shift = Suc (k - (Shift + 1))" using ih(1) by simp
      then have "unat r = unat Remainder * 2 ^ (k - Shift)"
        using ih(3) u by simp
      with ih(1,2,4) show ?thesis by simp
    qed
  qed
qed

lemma scan_inv0:
  assumes "scanLeadingBit 0 v = (k, r)"
  shows "k \<le> 32" and "unat r = unat v * 2 ^ k" and "k < 32 \<Longrightarrow> 2147483648 \<le> unat r"
  using scan_inv [of 0 v k r] assms by simp_all

lemma scan_zero: "scanLeadingBit 0 0 = (32, 0)"
  by (simp add: scanLeadingBit.simps)

subsection \<open>The result as a number\<close>

text \<open>With \<open>dbShape\<close> the result is a number, and no 16-bit operation wraps.\<close>

lemma smallOf_lt: "smallOf r < 128"
  unfolding smallOf_def by simp

lemma of_nat_unat16: "unat (w :: 16 word) = n \<Longrightarrow> w = word_of_nat n"
  by (metis of_nat_unat ucast_id)

lemma small_word:
  "(ucast (drop_bit 24 ((r :: 32 word) AND 0x7fffffff)) :: 16 word) = word_of_nat (smallOf r)"
proof -
  define X where "X = drop_bit 24 (r AND 0x7fffffff)"
  have x: "unat X = smallOf r"
    unfolding X_def smallOf_def by (rule lowbits)
  have "unat (ucast X :: 16 word) = take_bit 16 (unat X)"
    by (simp only: unsigned_ucast_eq) simp
  also have "\<dots> = smallOf r"
    using smallOf_lt [of r] by (simp add: x take_bit_eq_mod)
  finally have "(ucast X :: 16 word) = word_of_nat (smallOf r)"
    by (rule of_nat_unat16)
  then show ?thesis unfolding X_def .
qed

lemma sq_le: "s < 128 \<Longrightarrow> s * s \<le> (16129 :: nat)"
proof -
  assume "s < 128"
  then have "s * s \<le> 127 * 127" by (intro mult_mono) simp_all
  then show ?thesis by simp
qed

lemma sq_word:
  assumes s: "s < 128"
  shows "drop_bit 9 ((word_of_nat s :: 16 word) * word_of_nat s) = word_of_nat (s * s div 512)"
proof -
  define W where "W = (word_of_nat s :: 16 word)"
  have w: "unat W = s" unfolding W_def using s by (simp add: unat_of_nat)
  have "unat W * unat W < 2 ^ LENGTH(16)" using sq_le [OF s] by (simp add: w)
  then have "unat (W * W) = unat W * unat W" by (simp only: unat_mult_lem)
  then have "unat (W * W) = s * s" by (simp only: w)
  then have "unat (drop_bit 9 (W * W)) = s * s div 512"
    by (simp add: unat_drop_bit_eq drop_bit_eq_div unat_div_distrib del: drop_bit_word_numeral)
  then have "drop_bit 9 (W * W) = word_of_nat (s * s div 512)"
    by (rule of_nat_unat16)
  then show ?thesis unfolding W_def .
qed

lemma sq_div_le: "s < 128 \<Longrightarrow> s * s div 512 \<le> (s :: nat)"
proof -
  assume "s < 128"
  then have "s * s \<le> s * 512" by (intro mult_le_mono2) simp
  then have "s * s div 512 \<le> s * 512 div 512" by (rule div_le_mono)
  then show ?thesis by simp
qed

lemma dbShape_bounds:
  assumes "k \<le> 32" "s < 128"
  shows "- 3077 \<le> dbShape k s \<and> dbShape k s \<le> 122"
  using assms sq_div_le [OF assms(2)] unfolding dbShape_def by simp

lemma LVC_closed:
  assumes "scanLeadingBit 0 v = (k, r)"
  shows "sint (LVC_ToDB_s32Tos16 v) = dbShape k (smallOf r)"
proof -
  from scan_inv0(1) [OF assms] have k: "k \<le> 32" .
  let ?s = "smallOf r"
  define SR where "SR = (ucast (drop_bit 24 (r AND 0x7fffffff)) :: 16 word)"
  have sr: "SR = word_of_nat ?s" unfolding SR_def by (rule small_word)
  have sq: "drop_bit 9 (SR * SR) = word_of_nat (?s * ?s div 512)"
    unfolding sr by (rule sq_word [OF smallOf_lt])
  have "LVC_ToDB_s32Tos16 v = word_of_int (- 96 * int k) + SR - drop_bit 9 (SR * SR) - 5"
    unfolding LVC_ToDB_s32Tos16_def SR_def Let_def assms prod.case ..
  also have "\<dots> =
      word_of_int (- 96 * int k) + word_of_nat ?s - word_of_nat (?s * ?s div 512) - 5"
    unfolding sq unfolding sr ..
  also have "\<dots> = word_of_int (dbShape k ?s)"
    by (simp add: dbShape_def)
  finally have "sint (LVC_ToDB_s32Tos16 v) = signed_take_bit 15 (dbShape k ?s)"
    by (simp add: sint_sbintrunc')
  also have "\<dots> = dbShape k ?s"
    using dbShape_bounds [OF k smallOf_lt [of r]]
    by (intro signed_take_bit_int_eq_self) simp_all
  finally show ?thesis .
qed

subsection \<open>Monotonicity\<close>

lemma sq_div_step:
  assumes "a \<le> b" "b < (128 :: nat)"
  shows "b * b div 512 \<le> a * a div 512 + (b - a)"
proof -
  define d where "d = b - a"
  have b: "b = a + d" using assms(1) by (simp add: d_def)
  have "b * b = a * a + d * (a + b)" unfolding b by (simp add: algebra_simps)
  moreover have "d * (a + b) \<le> d * 512" using assms by (intro mult_le_mono2) simp
  ultimately have "b * b \<le> a * a + d * 512" by simp
  then have "b * b div 512 \<le> (a * a + d * 512) div 512" by (rule div_le_mono)
  then show ?thesis by (simp add: d_def)
qed

lemma dbShape_mono_small:
  assumes "a \<le> b" "b < 128"
  shows "dbShape k a \<le> dbShape k b"
  using sq_div_step [OF assms] assms(1) unfolding dbShape_def by simp

lemma dbShape_top: "s < 128 \<Longrightarrow> dbShape k s \<le> - 96 * int k + 91"
proof -
  assume s: "s < 128"
  then have "s \<le> 127" by simp
  from dbShape_mono_small [OF this, of k] have "dbShape k s \<le> dbShape k 127" by simp
  then show ?thesis by (simp add: dbShape_def)
qed

lemma dbShape_bottom: "s < 128 \<Longrightarrow> - 96 * int k - 5 \<le> dbShape k s"
  using sq_div_le [of s] unfolding dbShape_def by simp

lemma dbShape_mono_shift:
  assumes "k' < k" "s < 128" "s' < 128"
  shows "dbShape k s \<le> dbShape k' s'"
proof -
  have "dbShape k s \<le> - 96 * int k + 91" by (rule dbShape_top [OF assms(2)])
  also have "\<dots> \<le> - 96 * int k' - 5" using assms(1) by simp
  also have "\<dots> \<le> dbShape k' s'" by (rule dbShape_bottom [OF assms(3)])
  finally show ?thesis .
qed

lemma smallOf_mono:
  assumes "unat ru \<le> unat rv" "2147483648 \<le> unat ru"
  shows "smallOf ru \<le> smallOf rv"
proof -
  have "unat ru mod 2147483648 = unat ru - 2147483648"
    using assms(2) unat_lt32 [of ru] by (simp add: mod_if)
  moreover have "unat rv mod 2147483648 = unat rv - 2147483648"
    using assms unat_lt32 [of rv] by (simp add: mod_if)
  ultimately have "unat ru mod 2147483648 \<le> unat rv mod 2147483648"
    using assms(1) by simp
  then show ?thesis unfolding smallOf_def by (rule div_le_mono)
qed

lemma LVC_mono:
  assumes le: "u \<le> v"
  shows "sint (LVC_ToDB_s32Tos16 u) \<le> sint (LVC_ToDB_s32Tos16 v)"
proof -
  obtain ku ru where su: "scanLeadingBit 0 u = (ku, ru)" by (cases "scanLeadingBit 0 u")
  obtain kv rv where sv: "scanLeadingBit 0 v = (kv, rv)" by (cases "scanLeadingBit 0 v")
  note iu = scan_inv0 [OF su]
  note iv = scan_inv0 [OF sv]
  have uv: "unat u \<le> unat v" using le by (simp add: word_le_nat_alt)
  have kle: "kv \<le> ku"
  proof (rule ccontr)
    assume "\<not> kv \<le> ku"
    then have lt: "ku < kv" by simp
    then have "ku < 32" using iv(1) by simp
    with iu have big: "2147483648 \<le> unat u * 2 ^ ku" by simp
    have "unat v * 2 ^ Suc ku \<le> unat v * 2 ^ kv"
      using lt by (intro mult_le_mono2 power_increasing) simp_all
    also have "\<dots> < 4294967296" using unat_lt32 [of rv] by (simp add: iv(2))
    finally have "unat v * 2 ^ ku < 2147483648" by simp
    moreover have "unat u * 2 ^ ku \<le> unat v * 2 ^ ku" using uv by (rule mult_le_mono1)
    ultimately show False using big by simp
  qed
  show ?thesis
  proof (cases "kv < ku")
    case True
    from dbShape_mono_shift [OF True smallOf_lt smallOf_lt]
    show ?thesis by (simp add: LVC_closed [OF su] LVC_closed [OF sv])
  next
    case False
    with kle have eq: "ku = kv" by simp
    have rle: "unat ru \<le> unat rv"
      unfolding iu(2) iv(2) eq using uv by (rule mult_le_mono1)
    have "smallOf ru \<le> smallOf rv"
    proof (cases "ku < 32")
      case True
      with iu(3) show ?thesis by (intro smallOf_mono [OF rle]) simp
    next
      case False
      with iu(1) have k32: "ku = 32" by simp
      have "unat rv < 4294967296" by (rule unat_lt32)
      then have "unat v = 0" unfolding iv(2) using k32 eq by simp
      then have "unat rv = 0" "unat ru = 0" using rle by (simp_all add: iv(2))
      then show ?thesis by (simp add: smallOf_def)
    qed
    from dbShape_mono_small [OF this smallOf_lt]
    show ?thesis by (simp add: LVC_closed [OF su] LVC_closed [OF sv] eq)
  qed
qed

lemma LVC_zero: "sint (LVC_ToDB_s32Tos16 0) = - 3077"
  by (simp add: LVC_closed [OF scan_zero] dbShape_def smallOf_def)

text \<open>
  Claim C5. Read as an unsigned 32-bit number, a greater input never gives a smaller
  result of \<^verbatim>\<open>LVC_ToDB_s32Tos16\<close>. At input 0 the scan leaves its loop with
  \<^verbatim>\<open>Shift = 32\<close>, that is after 32 rounds, none of which broke out, and the function
  returns \<open>- 3077\<close>, the least value it returns for any input.
\<close>

theorem LVC_ToDB_monotone_and_least_at_zero:
  "(u \<le> v \<longrightarrow> sint (LVC_ToDB_s32Tos16 u) \<le> sint (LVC_ToDB_s32Tos16 v))
   \<and> scanLeadingBit 0 0 = (32, 0)
   \<and> sint (LVC_ToDB_s32Tos16 0) = - 3077
   \<and> sint (LVC_ToDB_s32Tos16 0) \<le> sint (LVC_ToDB_s32Tos16 v)"
  using LVC_mono [of u v] LVC_mono [of 0 v] scan_zero LVC_zero by simp

theorem LVC_ToDB_monotone_witness:
  "(3 :: 32 word) \<le> 5 \<and> sint (LVC_ToDB_s32Tos16 3) \<le> sint (LVC_ToDB_s32Tos16 5)
   \<and> sint (LVC_ToDB_s32Tos16 0) \<le> sint (LVC_ToDB_s32Tos16 5)"
  using LVC_ToDB_monotone_and_least_at_zero [of 3 5] by simp

text \<open>
  Claim C8. Whatever the volume, \<^verbatim>\<open>VolToDb\<close> returns at least \<open>- 96\<close>: its last
  statement replaces anything lower.
\<close>

theorem VolToDb_floor: "- 96 \<le> sint (VolToDb vol)"
  by (simp add: VolToDb_def Let_def)

section \<open>Properties of the context\<close>

subsection \<open>Engine calls\<close>

lemma nextReply_fields [simp]:
  "held (snd (nextReply e)) = held e"
  "calls (snd (nextReply e)) = calls e"
  "processed (snd (nextReply e)) = processed e"
  by (simp_all add: nextReply_def split: list.splits)

lemma Get_simps [simp]:
  "snd (fst (LVM_GetControlParameters e)) = held e"
  "calls (snd (LVM_GetControlParameters e)) =
     calls e @ [GetControlParameters (fst (fst (LVM_GetControlParameters e)))]"
  "held (snd (LVM_GetControlParameters e)) = held e"
  "processed (snd (LVM_GetControlParameters e)) = processed e"
  by (simp_all add: LVM_GetControlParameters_def split_beta)

lemma Set_simps [simp]:
  "calls (snd (LVM_SetControlParameters e p)) =
     calls e @ [SetControlParameters p (fst (LVM_SetControlParameters e p))]"
  "held (snd (LVM_SetControlParameters e p)) =
     (if fst (LVM_SetControlParameters e p) = LVM_SUCCESS then p else held e)"
  "processed (snd (LVM_SetControlParameters e p)) = processed e"
  by (simp_all add: LVM_SetControlParameters_def split_beta)

lemma NoSmoothing_simps [simp]:
  "calls (snd (LVM_SetVolumeNoSmoothing e p)) =
     calls e @ [SetVolumeNoSmoothing p (fst (LVM_SetVolumeNoSmoothing e p))]"
  "held (snd (LVM_SetVolumeNoSmoothing e p)) = held e"
  "processed (snd (LVM_SetVolumeNoSmoothing e p)) = processed e"
  by (simp_all add: LVM_SetVolumeNoSmoothing_def split_beta)

lemma Process_simps [simp]:
  "calls (snd (LVM_Process e i ob n)) = calls e @ [Process n (fst (fst (LVM_Process e i ob n)))]"
  "held (snd (LVM_Process e i ob n)) = held e"
  "processed (snd (LVM_Process e i ob n)) = processed e"
  by (simp_all add: LVM_Process_def split_beta)

lemma status_neq [simp]:
  "(r \<noteq> LVM_SUCCESS) = (r = LVM_FAILED)"
  "(r \<noteq> LVM_FAILED) = (r = LVM_SUCCESS)"
  by (cases r; simp)+

subsection \<open>Traces\<close>

lemma newCalls_eq:
  "calls (mInstance ctx') = calls (mInstance ctx) @ new \<Longrightarrow> newCalls ctx ctx' = new"
  by (simp add: newCalls_def)

lemma newCalls_same [simp]: "newCalls ctx ctx = []"
  by (simp add: newCalls_def)

lemma newCalls_trans:
  assumes "calls (mInstance c2) = calls (mInstance c1) @ newCalls c1 c2"
    and "calls (mInstance c3) = calls (mInstance c2) @ newCalls c2 c3"
  shows "newCalls c1 c3 = newCalls c1 c2 @ newCalls c2 c3"
proof -
  have "calls (mInstance c3) = calls (mInstance c1) @ (newCalls c1 c2 @ newCalls c2 c3)"
    using assms by simp
  then show ?thesis by (rule newCalls_eq)
qed

lemma firstVolumeRule_nil [simp]: "firstVolumeRule flag [] flag' = (flag' = flag)"
  by (auto simp: firstVolumeRule_def)

lemma firstVolumeRule_append:
  assumes "firstVolumeRule f a f1" "firstVolumeRule f1 b f2"
  shows "firstVolumeRule f (a @ b) f2"
proof (cases "b = []")
  case True
  with assms show ?thesis by simp
next
  case False
  with assms(2) have f1: "f1" by (simp add: firstVolumeRule_def)
  with assms(1) have a: "f" "list_all (\<lambda>c. \<not> callOk c) a"
    by (auto simp: firstVolumeRule_def)
  from assms(2) f1 have b: "list_all (\<lambda>c. \<not> callOk c) (butlast b)"
    "f2 = list_all (\<lambda>c. \<not> callOk c) b"
    by (auto simp: firstVolumeRule_def)
  from False have "butlast (a @ b) = a @ butlast b" by (simp add: butlast_append)
  with a b show ?thesis by (simp add: firstVolumeRule_def)
qed

lemma traced_refl [simp]: "traced ctx ctx"
  by (simp add: traced_def)

lemma traced_trans:
  assumes "traced c1 c2" "traced c2 c3"
  shows "traced c1 c3"
proof -
  from assms have n: "newCalls c1 c3 = newCalls c1 c2 @ newCalls c2 c3"
    by (intro newCalls_trans) (simp_all add: traced_def)
  have "calls (mInstance c3) = calls (mInstance c1) @ newCalls c1 c3"
    using assms by (simp add: n traced_def)
  moreover have "firstVolumeRule (mFirstVolume c1) (filter isNoSmoothing (newCalls c1 c3))
      (mFirstVolume c3)"
    unfolding n filter_append
    using assms by (intro firstVolumeRule_append [where ?f1.0 = "mFirstVolume c2"])
      (simp_all add: traced_def)
  ultimately show ?thesis by (simp add: traced_def)
qed

lemma traced_quiet:
  assumes "calls (mInstance ctx') = calls (mInstance ctx) @ new"
    and "filter isNoSmoothing new = []" and "mFirstVolume ctx' = mFirstVolume ctx"
  shows "traced ctx ctx'"
  using assms newCalls_eq [OF assms(1)] by (simp add: traced_def)

subsection \<open>limitLevel\<close>

lemma limitLevel_frame:
  "snd (limitLevel K ctx) =
     ctx\<lparr>mInstance := mInstance (snd (limitLevel K ctx)),
         mFirstVolume := mFirstVolume (snd (limitLevel K ctx))\<rparr>"
  by (simp add: limitLevel_def Let_def split_beta)

lemma limitLevel_traced: "traced ctx (snd (limitLevel K ctx))"
  by (simp add: limitLevel_def traced_def newCalls_def firstVolumeRule_def Let_def split_beta)

lemma limitLevel_ret:
  "fst (limitLevel K ctx) =
     (if list_all callOk (newCalls ctx (snd (limitLevel K ctx))) then SUCCESS
      else ERROR_EFFECT_LIB_ERROR)"
  by (simp add: limitLevel_def newCalls_def Let_def split_beta)

text \<open>With every band gain at 0 the energy estimate is 0.\<close>

lemma energyContributionOf_zero:
  "energyContributionOf K (replicate (MAX_NUM_BANDS K) 0) = 0"
proof -
  have "fold (\<lambda>i energyContribution.
             let bandFactor = real_of_int (replicate (MAX_NUM_BANDS K) 0 ! i) / 15;
                 bandCoefficient = kBandEnergyCoefficient K i;
                 bandEnergy = bandFactor * bandCoefficient * bandCoefficient
             in if bandEnergy > 0 then energyContribution + bandEnergy else energyContribution)
          [0..<MAX_NUM_BANDS K] = id"
    by (rule fold_id) (simp add: fun_eq_iff)
  then show ?thesis by (simp add: energyContributionOf_def)
qed

lemma crossEnergyOf_zero:
  "crossEnergyOf K (replicate (MAX_NUM_BANDS K) 0) = (0, 0)"
proof -
  have "fold (\<lambda>i (energyCross, bandFactorSum).
             let bandFactor1 = real_of_int (replicate (MAX_NUM_BANDS K) 0 ! i) / 15;
                 bandFactor2 = real_of_int (replicate (MAX_NUM_BANDS K) 0 ! (i + 1)) / 15
             in if bandFactor1 > 0 \<and> bandFactor2 > 0
                then (let crossEnergy = bandFactor1 * bandFactor2 * kBandEnergyCrossCoefficient K i
                      in (if crossEnergy > 0 then energyCross + crossEnergy else energyCross,
                          bandFactorSum + bandFactor1 * bandFactor2))
                else (energyCross, bandFactorSum))
          [0..<MAX_NUM_BANDS K - 1] = id"
    by (rule fold_id) (simp add: fun_eq_iff)
  then show ?thesis by (simp add: crossEnergyOf_def)
qed

lemma totalEnergyEstimation_zero:
  "totalEnergyEstimation K eqEnabled (replicate (MAX_NUM_BANDS K) 0) = 0"
  by (simp add: totalEnergyEstimation_def energyContributionOf_zero crossEnergyOf_zero)

lemma gainCorrectionOf_zero:
  "gainCorrectionOf 0 levelSaved = (if levelSaved > 0 then levelSaved else 0)"
  by (simp add: gainCorrectionOf_def int_of_double_def)

subsection \<open>Operating mode, enable and disable\<close>

lemma traced_Get:
  "mInstance c' = snd (LVM_GetControlParameters (mInstance c)) \<Longrightarrow>
   mFirstVolume c' = mFirstVolume c \<Longrightarrow> traced c c'"
  by (rule traced_quiet [where new = "[GetControlParameters (fst (fst (LVM_GetControlParameters (mInstance c))))]"]) simp_all

lemma traced_Set:
  "mInstance c' = snd (LVM_SetControlParameters (mInstance c) p) \<Longrightarrow>
   mFirstVolume c' = mFirstVolume c \<Longrightarrow> traced c c'"
  by (rule traced_quiet [where new = "[SetControlParameters p (fst (LVM_SetControlParameters (mInstance c) p))]"]) simp_all

lemma traced_same_engine:
  "mInstance c' = mInstance c \<Longrightarrow> mFirstVolume c' = mFirstVolume c \<Longrightarrow> traced c c'"
  by (rule traced_quiet [where new = "[]"]) simp_all

text \<open>
  A function that reads the parameters, changes them, writes them back and, when both
  calls were accepted, goes on with \<open>nxt\<close>.
\<close>

lemma get_set_then:
  assumes f: "\<And>c. f c =
      (let ((st, params), e) = LVM_GetControlParameters (mInstance c);
           c = c\<lparr>mInstance := e\<rparr>
       in if st \<noteq> LVM_SUCCESS then (ERROR_EFFECT_LIB_ERROR, c)
          else let params = g c params;
                   (st, e) = LVM_SetControlParameters (mInstance c) params;
                   c = c\<lparr>mInstance := e\<rparr>
               in if st \<noteq> LVM_SUCCESS then (ERROR_EFFECT_LIB_ERROR, c) else nxt (h c))"
    and h: "\<And>c. mInstance (h c) = mInstance c \<and> mFirstVolume (h c) = mFirstVolume c"
    and nt: "\<And>c. traced c (snd (nxt c))"
    and nr: "\<And>c. fst (nxt c) =
      (if list_all callOk (newCalls c (snd (nxt c))) then SUCCESS else ERROR_EFFECT_LIB_ERROR)"
  shows "traced ctx (snd (f ctx))"
    and "fst (f ctx) =
      (if list_all callOk (newCalls ctx (snd (f ctx))) then SUCCESS else ERROR_EFFECT_LIB_ERROR)"
proof -
  define G where "G = LVM_GetControlParameters (mInstance ctx)"
  define c1 where "c1 = ctx\<lparr>mInstance := snd G\<rparr>"
  define p where "p = g c1 (held (mInstance ctx))"
  define S where "S = LVM_SetControlParameters (snd G) p"
  define c2 where "c2 = c1\<lparr>mInstance := snd S\<rparr>"
  have t1: "traced ctx c1" unfolding c1_def G_def by (rule traced_Get) simp_all
  have t2: "traced c1 c2" unfolding c2_def S_def
    by (rule traced_Set [where p = p]) (simp_all add: c1_def)
  have n1: "newCalls ctx c1 = [GetControlParameters (fst (fst G))]"
    by (rule newCalls_eq) (simp add: c1_def G_def)
  have n2: "newCalls c1 c2 = [SetControlParameters p (fst S)]"
    by (rule newCalls_eq) (simp add: c2_def c1_def S_def)
  have t12: "traced ctx c2" by (rule traced_trans [OF t1 t2])
  have n12: "newCalls ctx c2 = [GetControlParameters (fst (fst G)), SetControlParameters p (fst S)]"
    using newCalls_trans [of c1 ctx c2] t1 t2 by (simp add: traced_def n1 n2)
  have unf: "f ctx =
      (if fst (fst G) \<noteq> LVM_SUCCESS then (ERROR_EFFECT_LIB_ERROR, c1)
       else if fst S \<noteq> LVM_SUCCESS then (ERROR_EFFECT_LIB_ERROR, c2) else nxt (h c2))"
    by (simp add: f [of ctx] Let_def split_beta G_def c1_def p_def S_def c2_def)
  have t23: "traced c2 (snd (nxt (h c2)))"
    by (rule traced_trans [OF traced_same_engine nt]) (simp_all add: h)
  have n23: "newCalls c2 (snd (nxt (h c2))) = newCalls (h c2) (snd (nxt (h c2)))"
    by (simp add: newCalls_def h)
  have n13: "newCalls ctx (snd (nxt (h c2))) =
      [GetControlParameters (fst (fst G)), SetControlParameters p (fst S)]
      @ newCalls (h c2) (snd (nxt (h c2)))"
    using newCalls_trans [of c2 ctx "snd (nxt (h c2))"] t12 t23 by (simp add: traced_def n12 n23)
  show "traced ctx (snd (f ctx))"
    using t1 t12 traced_trans [OF t12 t23] by (simp add: unf)
  show "fst (f ctx) =
      (if list_all callOk (newCalls ctx (snd (f ctx))) then SUCCESS else ERROR_EFFECT_LIB_ERROR)"
    by (simp add: unf n1 n12 n13 nr)
qed

lemma enableOperatingMode_traced: "traced ctx (snd (enableOperatingMode K ctx))"
  and enableOperatingMode_ret:
    "fst (enableOperatingMode K ctx) =
       (if list_all callOk (newCalls ctx (snd (enableOperatingMode K ctx))) then SUCCESS
        else ERROR_EFFECT_LIB_ERROR)"
proof -
  have f: "\<And>c. enableOperatingMode K c =
      (let ((st, params), e) = LVM_GetControlParameters (mInstance c);
           c = c\<lparr>mInstance := e\<rparr>
       in if st \<noteq> LVM_SUCCESS then (ERROR_EFFECT_LIB_ERROR, c)
          else let params = (\<lambda>c params. case mType c of
                           EQUALIZER \<Rightarrow> params\<lparr>EQNB_OperatingMode := LVM_EQNB_ON\<rparr>
                         | _ \<Rightarrow> params) c params;
                   (st, e) = LVM_SetControlParameters (mInstance c) params;
                   c = c\<lparr>mInstance := e\<rparr>
               in if st \<noteq> LVM_SUCCESS then (ERROR_EFFECT_LIB_ERROR, c)
                  else limitLevel K ((\<lambda>c. c) c))"
    by (simp add: enableOperatingMode_def)
  show "traced ctx (snd (enableOperatingMode K ctx))"
    by (rule get_set_then(1) [OF f]) (simp_all add: limitLevel_traced limitLevel_ret)
  show "fst (enableOperatingMode K ctx) =
       (if list_all callOk (newCalls ctx (snd (enableOperatingMode K ctx))) then SUCCESS
        else ERROR_EFFECT_LIB_ERROR)"
    by (rule get_set_then(2) [OF f]) (simp_all add: limitLevel_traced limitLevel_ret)
qed

lemma disableOperatingMode_traced: "traced ctx (snd (disableOperatingMode K ctx))"
  and disableOperatingMode_ret:
    "fst (disableOperatingMode K ctx) =
       (if list_all callOk (newCalls ctx (snd (disableOperatingMode K ctx))) then SUCCESS
        else ERROR_EFFECT_LIB_ERROR)"
proof -
  have f: "\<And>c. disableOperatingMode K c =
      (let ((st, params), e) = LVM_GetControlParameters (mInstance c);
           c = c\<lparr>mInstance := e\<rparr>
       in if st \<noteq> LVM_SUCCESS then (ERROR_EFFECT_LIB_ERROR, c)
          else let params = (\<lambda>c params. case mType c of
                           EQUALIZER \<Rightarrow> params\<lparr>EQNB_OperatingMode := LVM_EQNB_OFF\<rparr>
                         | _ \<Rightarrow> params) c params;
                   (st, e) = LVM_SetControlParameters (mInstance c) params;
                   c = c\<lparr>mInstance := e\<rparr>
               in if st \<noteq> LVM_SUCCESS then (ERROR_EFFECT_LIB_ERROR, c)
                  else limitLevel K ((\<lambda>c. c\<lparr>mEnabled := False\<rparr>) c))"
    by (simp add: disableOperatingMode_def)
  show "traced ctx (snd (disableOperatingMode K ctx))"
    by (rule get_set_then(1) [where nxt = "limitLevel K" and h = "\<lambda>c. c\<lparr>mEnabled := False\<rparr>", OF f])
      (simp_all add: limitLevel_traced limitLevel_ret)
  show "fst (disableOperatingMode K ctx) =
       (if list_all callOk (newCalls ctx (snd (disableOperatingMode K ctx))) then SUCCESS
        else ERROR_EFFECT_LIB_ERROR)"
    by (rule get_set_then(2) [where nxt = "limitLevel K" and h = "\<lambda>c. c\<lparr>mEnabled := False\<rparr>", OF f])
      (simp_all add: limitLevel_traced limitLevel_ret)
qed

text \<open>What the three functions leave alone.\<close>

lemma limitLevel_fields [simp]:
  "mType (snd (limitLevel K ctx)) = mType ctx"
  "mEnabled (snd (limitLevel K ctx)) = mEnabled ctx"
  "mSamplesPerSecond (snd (limitLevel K ctx)) = mSamplesPerSecond ctx"
  "mSamplesToExitCountEq (snd (limitLevel K ctx)) = mSamplesToExitCountEq ctx"
  "mEffectInDrain (snd (limitLevel K ctx)) = mEffectInDrain ctx"
  "mEffectProcessCalled (snd (limitLevel K ctx)) = mEffectProcessCalled ctx"
  "mNumberEffectsEnabled (snd (limitLevel K ctx)) = mNumberEffectsEnabled ctx"
  "mNumberEffectsCalled (snd (limitLevel K ctx)) = mNumberEffectsCalled ctx"
  "mLevelSaved (snd (limitLevel K ctx)) = mLevelSaved ctx"
  "mBandGaindB (snd (limitLevel K ctx)) = mBandGaindB ctx"
  "mCurPresetIdx (snd (limitLevel K ctx)) = mCurPresetIdx ctx"
  "mVolumeStereo (snd (limitLevel K ctx)) = mVolumeStereo ctx"
  "inputFrameCount (snd (limitLevel K ctx)) = inputFrameCount ctx"
  "outputFrameCount (snd (limitLevel K ctx)) = outputFrameCount ctx"
  "inputFrameSize (snd (limitLevel K ctx)) = inputFrameSize ctx"
  by (simp_all add: limitLevel_def Let_def split_beta)

lemma enableOperatingMode_fields [simp]:
  "mType (snd (enableOperatingMode K ctx)) = mType ctx"
  "mEnabled (snd (enableOperatingMode K ctx)) = mEnabled ctx"
  "mSamplesPerSecond (snd (enableOperatingMode K ctx)) = mSamplesPerSecond ctx"
  "mSamplesToExitCountEq (snd (enableOperatingMode K ctx)) = mSamplesToExitCountEq ctx"
  "mEffectInDrain (snd (enableOperatingMode K ctx)) = mEffectInDrain ctx"
  "mEffectProcessCalled (snd (enableOperatingMode K ctx)) = mEffectProcessCalled ctx"
  "mNumberEffectsEnabled (snd (enableOperatingMode K ctx)) = mNumberEffectsEnabled ctx"
  "mNumberEffectsCalled (snd (enableOperatingMode K ctx)) = mNumberEffectsCalled ctx"
  "mLevelSaved (snd (enableOperatingMode K ctx)) = mLevelSaved ctx"
  "mBandGaindB (snd (enableOperatingMode K ctx)) = mBandGaindB ctx"
  "mCurPresetIdx (snd (enableOperatingMode K ctx)) = mCurPresetIdx ctx"
  "mVolumeStereo (snd (enableOperatingMode K ctx)) = mVolumeStereo ctx"
  "inputFrameCount (snd (enableOperatingMode K ctx)) = inputFrameCount ctx"
  "outputFrameCount (snd (enableOperatingMode K ctx)) = outputFrameCount ctx"
  "inputFrameSize (snd (enableOperatingMode K ctx)) = inputFrameSize ctx"
  by (simp_all add: enableOperatingMode_def Let_def split_beta)

lemma disableOperatingMode_fields [simp]:
  "mType (snd (disableOperatingMode K ctx)) = mType ctx"
  "mSamplesPerSecond (snd (disableOperatingMode K ctx)) = mSamplesPerSecond ctx"
  "mSamplesToExitCountEq (snd (disableOperatingMode K ctx)) = mSamplesToExitCountEq ctx"
  "mEffectInDrain (snd (disableOperatingMode K ctx)) = mEffectInDrain ctx"
  "mEffectProcessCalled (snd (disableOperatingMode K ctx)) = mEffectProcessCalled ctx"
  "mNumberEffectsEnabled (snd (disableOperatingMode K ctx)) = mNumberEffectsEnabled ctx"
  "mNumberEffectsCalled (snd (disableOperatingMode K ctx)) = mNumberEffectsCalled ctx"
  "mLevelSaved (snd (disableOperatingMode K ctx)) = mLevelSaved ctx"
  "mBandGaindB (snd (disableOperatingMode K ctx)) = mBandGaindB ctx"
  "mCurPresetIdx (snd (disableOperatingMode K ctx)) = mCurPresetIdx ctx"
  "mVolumeStereo (snd (disableOperatingMode K ctx)) = mVolumeStereo ctx"
  "inputFrameCount (snd (disableOperatingMode K ctx)) = inputFrameCount ctx"
  "outputFrameCount (snd (disableOperatingMode K ctx)) = outputFrameCount ctx"
  "inputFrameSize (snd (disableOperatingMode K ctx)) = inputFrameSize ctx"
  by (simp_all add: disableOperatingMode_def Let_def split_beta)

lemma disableOperatingMode_mEnabled:
  "\<not> mEnabled ctx \<Longrightarrow> \<not> mEnabled (snd (disableOperatingMode K ctx))"
  by (simp add: disableOperatingMode_def Let_def split_beta)

text \<open>The statements of enable and disable before the operating-mode call.\<close>

lemma enable_unfold:
  "\<not> mEnabled ctx \<Longrightarrow> enable K ctx =
     enableOperatingMode K
       (if mType ctx = EQUALIZER
        then ctx\<lparr>mNumberEffectsEnabled :=
                   (if mSamplesToExitCountEq ctx \<le> 0 then mNumberEffectsEnabled ctx + 1
                    else mNumberEffectsEnabled ctx),
                 mSamplesToExitCountEq := tenthOf (mSamplesPerSecond ctx),
                 mEffectInDrain := mEffectInDrain ctx AND NOT (effectBit EQUALIZER),
                 mEnabled := True\<rparr>
        else ctx\<lparr>mEnabled := True\<rparr>)"
  by (cases "mType ctx") (simp_all add: enable_def Let_def)

lemma disable_unfold:
  "mEnabled ctx \<Longrightarrow> disable K ctx =
     disableOperatingMode K
       (if mType ctx = EQUALIZER
        then ctx\<lparr>mEffectInDrain := mEffectInDrain ctx OR effectBit EQUALIZER, mEnabled := False\<rparr>
        else ctx\<lparr>mEnabled := False\<rparr>)"
  by (cases "mType ctx") (simp_all add: disable_def Let_def)

lemma traced_cong:
  "mInstance c = mInstance ctx \<Longrightarrow> mFirstVolume c = mFirstVolume ctx \<Longrightarrow>
   traced c c' \<Longrightarrow> traced ctx c'"
  by (simp add: traced_def newCalls_def)

lemma newCalls_cong: "mInstance c = mInstance ctx \<Longrightarrow> newCalls c c' = newCalls ctx c'"
  by (simp add: newCalls_def)

lemma enable_traced: "traced ctx (snd (enable K ctx))"
proof (cases "mEnabled ctx")
  case True
  then show ?thesis by (simp add: enable_def)
next
  case False
  show ?thesis unfolding enable_unfold [OF False]
    by (rule traced_cong [OF _ _ enableOperatingMode_traced]) simp_all
qed

lemma disable_traced: "traced ctx (snd (disable K ctx))"
proof (cases "mEnabled ctx")
  case False
  then show ?thesis by (simp add: disable_def)
next
  case True
  show ?thesis unfolding disable_unfold [OF True]
    by (rule traced_cong [OF _ _ disableOperatingMode_traced]) simp_all
qed

lemma enable_ret:
  assumes "\<not> mEnabled ctx"
  shows "fst (enable K ctx) =
     (if list_all callOk (newCalls ctx (snd (enable K ctx))) then SUCCESS
      else ERROR_EFFECT_LIB_ERROR)"
  unfolding enable_unfold [OF assms] enableOperatingMode_ret
  by (subst newCalls_cong [where ctx = ctx]) simp_all

lemma enable_sets_mEnabled: "mEnabled (snd (enable K ctx))"
proof (cases "mEnabled ctx")
  case True
  then show ?thesis by (simp add: enable_def)
next
  case False
  show ?thesis unfolding enable_unfold [OF False] by simp
qed

subsection \<open>The setters\<close>

lemma isBandLevelIndexInRange_Nil [simp]: "isBandLevelIndexInRange K [] = None"
  by (simp add: isBandLevelIndexInRange_def)

lemma fold_min_index:
  "index (fold (\<lambda>a m. if index a < index m then a else m) bs b) = Min (index ` set (b # bs))"
proof (induction bs arbitrary: b)
  case Nil
  then show ?case by simp
next
  case (Cons a bs)
  show ?case
  proof (cases "index a < index b")
    case True
    then have "min (index b) (min (index a) x) = min (index a) x" for x by simp
    with True Cons [of a] show ?thesis
      by (cases "bs = []") (simp_all add: min.assoc min.left_commute)
  next
    case False
    then have "min (index a) (min (index b) x) = min (index b) x" for x by simp
    with False Cons [of b] show ?thesis
      by (cases "bs = []") (simp_all add: min.assoc min.left_commute)
  qed
qed

lemma fold_max_index:
  "index (fold (\<lambda>a m. if index a < index m then m else a) bs b) = Max (index ` set (b # bs))"
proof (induction bs arbitrary: b)
  case Nil
  then show ?case by simp
next
  case (Cons a bs)
  show ?case
  proof (cases "index a < index b")
    case True
    then have "max (index a) (max (index b) x) = max (index b) x" for x by simp
    with True Cons [of b] show ?thesis
      by (cases "bs = []") (simp_all add: max.assoc max.left_commute)
  next
    case False
    then have "max (index b) (max (index a) x) = max (index a) x" for x by simp
    with False Cons [of a] show ?thesis
      by (cases "bs = []") (simp_all add: max.assoc max.left_commute)
  qed
qed

lemma isBandLevelIndexInRange_iff:
  assumes "bandLevels \<noteq> []"
  shows "isBandLevelIndexInRange K bandLevels =
     Some (list_all (\<lambda>b. 0 \<le> index b \<and> index b < int (MAX_NUM_BANDS K)) bandLevels)"
proof -
  from assms obtain b bs where bl: "bandLevels = b # bs" by (cases bandLevels) auto
  have fin: "finite (index ` set (b # bs))" "index ` set (b # bs) \<noteq> {}" by simp_all
  have "(0 \<le> Min (index ` set (b # bs))) = (\<forall>x \<in> set (b # bs). 0 \<le> index x)"
    using Min_ge_iff [OF fin, of 0] by auto
  moreover have "(Max (index ` set (b # bs)) < int (MAX_NUM_BANDS K))
     = (\<forall>x \<in> set (b # bs). index x < int (MAX_NUM_BANDS K))"
    using Max_less_iff [OF fin, of "int (MAX_NUM_BANDS K)"] by auto
  ultimately show ?thesis
    unfolding bl isBandLevelIndexInRange_def list.case Let_def fold_min_index fold_max_index
    by (auto simp: list_all_iff)
qed

text \<open>updateControlParameter once its range check has passed.\<close>

lemma updateControlParameter_unfold:
  assumes "isBandLevelIndexInRange K bandLevels = Some True"
  shows "updateControlParameter K uninit bandLevels ctx =
     (let tempLevel = fold (\<lambda>it t. t[nat (index it) := levelMb it]) bandLevels
                        (map uninit [0..<MAX_NUM_BANDS K]);
          G = LVM_GetControlParameters (mInstance ctx);
          params = (held (mInstance ctx))\<lparr>pEQNB_BandDefinition :=
                     map (\<lambda>i. \<lparr>Gain = tempLevel ! i,
                                Frequency = kPresetsFrequencies K i,
                                QFactor = kPresetsQFactors K i\<rparr>)
                         [0..<MAX_NUM_BANDS K]
                     @ drop (MAX_NUM_BANDS K) (pEQNB_BandDefinition (held (mInstance ctx)))\<rparr>;
          S = LVM_SetControlParameters (snd G) params
      in if fst (fst G) \<noteq> LVM_SUCCESS
         then Some (ERROR_EFFECT_LIB_ERROR, ctx\<lparr>mInstance := snd G\<rparr>)
         else if fst S \<noteq> LVM_SUCCESS
         then Some (ERROR_EFFECT_LIB_ERROR, ctx\<lparr>mInstance := snd S\<rparr>)
         else Some (SUCCESS, ctx\<lparr>mInstance := snd S, mBandGaindB := tempLevel\<rparr>))"
  by (simp add: updateControlParameter_def assms Let_def split_beta)

lemma updateControlParameter_cases:
  assumes "updateControlParameter K uninit bandLevels ctx = Some (ret, ctx')"
  obtains (range) "ret = ERROR_ILLEGAL_PARAMETER" "ctx' = ctx"
      "isBandLevelIndexInRange K bandLevels = Some False"
  | (get) e where "ret = ERROR_EFFECT_LIB_ERROR" "ctx' = ctx\<lparr>mInstance := e\<rparr>"
      "calls e = calls (mInstance ctx) @ [GetControlParameters LVM_FAILED]"
  | (set) e p where "ret = ERROR_EFFECT_LIB_ERROR" "ctx' = ctx\<lparr>mInstance := e\<rparr>"
      "calls e = calls (mInstance ctx)
         @ [GetControlParameters LVM_SUCCESS, SetControlParameters p LVM_FAILED]"
  | (ok) e where "ret = SUCCESS"
      "ctx' = ctx\<lparr>mInstance := e,
                  mBandGaindB := fold (\<lambda>it t. t[nat (index it) := levelMb it]) bandLevels
                                   (map uninit [0..<MAX_NUM_BANDS K])\<rparr>"
      "calls e = calls (mInstance ctx)
         @ [GetControlParameters LVM_SUCCESS, SetControlParameters (held e) LVM_SUCCESS]"
      "pEQNB_BandDefinition (held e) =
         map (\<lambda>i. \<lparr>Gain = fold (\<lambda>it t. t[nat (index it) := levelMb it]) bandLevels
                              (map uninit [0..<MAX_NUM_BANDS K]) ! i,
                    Frequency = kPresetsFrequencies K i,
                    QFactor = kPresetsQFactors K i\<rparr>) [0..<MAX_NUM_BANDS K]
         @ drop (MAX_NUM_BANDS K) (pEQNB_BandDefinition (held (mInstance ctx)))"
      "isBandLevelIndexInRange K bandLevels = Some True"
proof (cases "isBandLevelIndexInRange K bandLevels")
  case None
  with assms show ?thesis by (simp add: updateControlParameter_def)
next
  case (Some b)
  show ?thesis
  proof (cases b)
    case False
    with Some assms range show ?thesis by (simp add: updateControlParameter_def)
  next
    case True
    with Some have r: "isBandLevelIndexInRange K bandLevels = Some True" by simp
    define G where "G = LVM_GetControlParameters (mInstance ctx)"
    show ?thesis
    proof (cases "fst (fst G) = LVM_SUCCESS")
      case False
      with assms show ?thesis
        by (intro get [of "snd G"]) (simp_all add: updateControlParameter_unfold [OF r] Let_def G_def)
    next
      case gok: True
      define tempLevel where "tempLevel = fold (\<lambda>it t. t[nat (index it) := levelMb it]) bandLevels
                        (map uninit [0..<MAX_NUM_BANDS K])"
      define params where "params = (held (mInstance ctx))\<lparr>pEQNB_BandDefinition :=
                     map (\<lambda>i. \<lparr>Gain = tempLevel ! i,
                                Frequency = kPresetsFrequencies K i,
                                QFactor = kPresetsQFactors K i\<rparr>)
                         [0..<MAX_NUM_BANDS K]
                     @ drop (MAX_NUM_BANDS K) (pEQNB_BandDefinition (held (mInstance ctx)))\<rparr>"
      define S where "S = LVM_SetControlParameters (snd G) params"
      show ?thesis
      proof (cases "fst S = LVM_SUCCESS")
        case False
        with assms gok show ?thesis
          by (intro set [of "snd S" params])
            (simp_all add: updateControlParameter_unfold [OF r] Let_def G_def S_def params_def tempLevel_def)
      next
        case True
        with assms gok r show ?thesis
          by (intro ok [of "snd S"])
            (simp_all add: updateControlParameter_unfold [OF r] Let_def G_def S_def params_def tempLevel_def)
      qed
    qed
  qed
qed

lemma updateControlParameter_traced:
  assumes "updateControlParameter K uninit bandLevels ctx = Some (ret, ctx')"
  shows "traced ctx ctx'"
  using assms
  by (cases rule: updateControlParameter_cases)
    (auto intro!: traced_quiet)

lemma updateControlParameter_commit:
  assumes "updateControlParameter K uninit bandLevels ctx = Some (ret, ctx')"
  shows "commitRule ctx ret (ctx'\<lparr>mCurPresetIdx := (if ret = SUCCESS then v else mCurPresetIdx ctx')\<rparr>)"
  using assms
  by (cases rule: updateControlParameter_cases)
    (simp_all add: commitRule_def mirror_def newCalls_def)

lemma commitRule_unchanged [simp]: "commitRule ctx ERROR_ILLEGAL_PARAMETER ctx"
  by (simp add: commitRule_def)

lemma setEqualizerBandLevels_traced:
  assumes "setEqualizerBandLevels K uninit bandLevels ctx = Some (ret, ctx')"
  shows "traced ctx ctx'"
proof (cases "length bandLevels > MAX_NUM_BANDS K \<or> bandLevels = []")
  case True
  with assms show ?thesis by (auto simp: setEqualizerBandLevels_def)
next
  case False
  with assms obtain r c where u: "updateControlParameter K uninit bandLevels ctx = Some (r, c)"
    and c: "ctx' = (if r = SUCCESS then c\<lparr>mCurPresetIdx := PRESET_CUSTOM K\<rparr> else c)"
    by (auto simp: setEqualizerBandLevels_def split: option.splits if_splits)
  have "traced c ctx'" unfolding c by (rule traced_same_engine) simp_all
  with updateControlParameter_traced [OF u] show ?thesis by (rule traced_trans)
qed

lemma setEqualizerPreset_traced:
  assumes "setEqualizerPreset K uninit presetIdx ctx = Some (ret, ctx')"
  shows "traced ctx ctx'"
proof (cases "presetIdx \<ge> MAX_NUM_PRESETS K")
  case True
  with assms show ?thesis by (auto simp: setEqualizerPreset_def)
next
  case False
  with assms obtain r c bl where u: "updateControlParameter K uninit bl ctx = Some (r, c)"
    and c: "ctx' = (if r = SUCCESS then c\<lparr>mCurPresetIdx := int presetIdx\<rparr> else c)"
    by (auto simp: setEqualizerPreset_def Let_def split: option.splits if_splits)
  have "traced c ctx'" unfolding c by (rule traced_same_engine) simp_all
  with updateControlParameter_traced [OF u] show ?thesis by (rule traced_trans)
qed

lemma setEqualizerBandLevels_commit:
  assumes "setEqualizerBandLevels K uninit bandLevels ctx = Some (ret, ctx')"
  shows "commitRule ctx ret ctx'"
proof (cases "length bandLevels > MAX_NUM_BANDS K \<or> bandLevels = []")
  case True
  with assms show ?thesis by (auto simp: setEqualizerBandLevels_def)
next
  case False
  with assms obtain c where u: "updateControlParameter K uninit bandLevels ctx = Some (ret, c)"
    and c: "ctx' = (if ret = SUCCESS then c\<lparr>mCurPresetIdx := PRESET_CUSTOM K\<rparr> else c)"
    by (auto simp: setEqualizerBandLevels_def split: option.splits if_splits)
  from updateControlParameter_commit [OF u, of "PRESET_CUSTOM K"] show ?thesis
    unfolding c by (cases "ret = SUCCESS") simp_all
qed

lemma setEqualizerPreset_commit:
  assumes "setEqualizerPreset K uninit presetIdx ctx = Some (ret, ctx')"
  shows "commitRule ctx ret ctx'"
proof (cases "presetIdx \<ge> MAX_NUM_PRESETS K")
  case True
  with assms show ?thesis by (auto simp: setEqualizerPreset_def)
next
  case False
  with assms obtain c bl where u: "updateControlParameter K uninit bl ctx = Some (ret, c)"
    and c: "ctx' = (if ret = SUCCESS then c\<lparr>mCurPresetIdx := int presetIdx\<rparr> else c)"
    by (auto simp: setEqualizerPreset_def Let_def split: option.splits if_splits)
  from updateControlParameter_commit [OF u, of "int presetIdx"] show ?thesis
    unfolding c by (cases "ret = SUCCESS") simp_all
qed

lemma setVolumeStereo_unfold:
  "setVolumeStereo volume ctx =
     (let pandB = sint (VolToDb (uint32_of_float (right volume)))
                  - sint (VolToDb (uint32_of_float (left volume)));
          G = LVM_GetControlParameters (mInstance ctx);
          S = LVM_SetControlParameters (snd G) ((held (mInstance ctx))\<lparr>VC_Balance := pandB\<rparr>)
      in if fst (fst G) \<noteq> LVM_SUCCESS then (ERROR_EFFECT_LIB_ERROR, ctx\<lparr>mInstance := snd G\<rparr>)
         else if fst S \<noteq> LVM_SUCCESS then (ERROR_EFFECT_LIB_ERROR, ctx\<lparr>mInstance := snd S\<rparr>)
         else (SUCCESS, ctx\<lparr>mInstance := snd S, mVolumeStereo := volume\<rparr>))"
  by (simp add: setVolumeStereo_def Let_def split_beta)

lemma setVolumeStereo_traced: "traced ctx (snd (setVolumeStereo volume ctx))"
  by (simp add: setVolumeStereo_unfold Let_def traced_def newCalls_def)

lemma setVolumeStereo_commit:
  "commitRule ctx (fst (setVolumeStereo volume ctx)) (snd (setVolumeStereo volume ctx))"
  by (simp add: setVolumeStereo_unfold Let_def commitRule_def mirror_def newCalls_def)

text \<open>Called with at least one band level, the update is never undefined.\<close>

lemma updateControlParameter_total:
  assumes "bandLevels \<noteq> []"
  shows "updateControlParameter K uninit bandLevels ctx \<noteq> None"
proof (cases "list_all (\<lambda>b. 0 \<le> index b \<and> index b < int (MAX_NUM_BANDS K)) bandLevels")
  case True
  then have "isBandLevelIndexInRange K bandLevels = Some True"
    by (simp add: isBandLevelIndexInRange_iff [OF assms])
  then show ?thesis by (simp add: updateControlParameter_unfold Let_def)
next
  case False
  then have "isBandLevelIndexInRange K bandLevels = Some False"
    by (simp add: isBandLevelIndexInRange_iff [OF assms])
  then show ?thesis by (simp add: updateControlParameter_def)
qed

lemma setEqualizerBandLevels_total: "setEqualizerBandLevels K uninit bandLevels ctx \<noteq> None"
proof (cases "length bandLevels > MAX_NUM_BANDS K \<or> bandLevels = []")
  case True
  then show ?thesis by (auto simp: setEqualizerBandLevels_def)
next
  case False
  then have "bandLevels \<noteq> []" by simp
  from updateControlParameter_total [OF this, of K uninit ctx] False show ?thesis
    by (auto simp: setEqualizerBandLevels_def split: option.splits)
qed

lemma setEqualizerPreset_total:
  assumes "0 < MAX_NUM_BANDS K"
  shows "setEqualizerPreset K uninit presetIdx ctx \<noteq> None"
proof (cases "presetIdx \<ge> MAX_NUM_PRESETS K")
  case True
  then show ?thesis by (simp add: setEqualizerPreset_def)
next
  case False
  let ?bl = "map (\<lambda>i. \<lparr>index = int i, levelMb = kSoftPresets K presetIdx i\<rparr>) [0..<MAX_NUM_BANDS K]"
  from assms have "?bl \<noteq> []" by simp
  from updateControlParameter_total [OF this, of K uninit ctx] False show ?thesis
    by (auto simp: setEqualizerPreset_def Let_def split: option.splits)
qed

subsection \<open>lvmProcess\<close>

lemma drainAccounting_engine [simp]:
  "mInstance (snd (drainAccounting ctx n)) = mInstance ctx"
  "mFirstVolume (snd (drainAccounting ctx n)) = mFirstVolume ctx"
  "inputFrameSize (snd (drainAccounting ctx n)) = inputFrameSize ctx"
  by (simp_all add: drainAccounting_def Let_def split_beta split: BundleEffectType.splits)

lemma lvmProcess_traced: "traced ctx (snd (snd (lvmProcess ctx inp out n)))"
  by (simp add: lvmProcess_def Let_def split_beta traced_def newCalls_def
      split: option.splits)

subsection \<open>Sessions\<close>

lemma contextAfter_traced: "contextAfter K c ctx = Some ctx' \<Longrightarrow> traced ctx ctx'"
proof (cases c)
  case Enable
  assume "contextAfter K c ctx = Some ctx'"
  with Enable enable_traced [of ctx K] show ?thesis by auto
next
  case Disable
  assume "contextAfter K c ctx = Some ctx'"
  with Disable disable_traced [of ctx K] show ?thesis by auto
next
  case LimitLevel
  assume "contextAfter K c ctx = Some ctx'"
  with LimitLevel limitLevel_traced [of ctx K] show ?thesis by auto
next
  case (SetVolumeStereo v)
  assume "contextAfter K c ctx = Some ctx'"
  with SetVolumeStereo setVolumeStereo_traced [of ctx v] show ?thesis by auto
next
  case (SetEqualizerPreset u i)
  assume "contextAfter K c ctx = Some ctx'"
  with SetEqualizerPreset show ?thesis by (auto dest: setEqualizerPreset_traced)
next
  case (SetEqualizerBandLevels u bl)
  assume "contextAfter K c ctx = Some ctx'"
  with SetEqualizerBandLevels show ?thesis by (auto dest: setEqualizerBandLevels_traced)
next
  case (LvmProcess i ob n)
  assume "contextAfter K c ctx = Some ctx'"
  with LvmProcess lvmProcess_traced [of ctx i ob n] show ?thesis by auto
qed

lemma sessionAfter_traced: "sessionAfter K cs ctx = Some ctx' \<Longrightarrow> traced ctx ctx'"
proof (induction cs arbitrary: ctx)
  case Nil
  then show ?case by simp
next
  case (Cons c cs)
  then obtain c1 where c1: "contextAfter K c ctx = Some c1" "sessionAfter K cs c1 = Some ctx'"
    by (auto split: option.splits)
  from contextAfter_traced [OF c1(1)] Cons.IH [OF c1(2)] show ?case by (rule traced_trans)
qed

subsection \<open>Evaluating the concrete context\<close>

lemmas engine_defs = LVM_GetControlParameters_def LVM_SetControlParameters_def
  LVM_SetVolumeNoSmoothing_def LVM_Process_def nextReply_def

lemmas level_defs = limitLevel_def totalEnergyEstimation_def energyContributionOf_def
  crossEnergyOf_def gainCorrectionOf_def effectLevelOf_def int_of_double_def

lemmas example_defs = exampleK_def exampleCtx_def exampleEngine_def exampleCtxWith_def

lemma example_estimate: "totalEnergyEstimation exampleK e [0, 0, 0, 0, 0] = 0"
  using totalEnergyEstimation_zero [of exampleK e] by (simp add: exampleK_def numeral_eq_Suc)

lemmas setter_defs = setEqualizerBandLevels_def setEqualizerPreset_def
  updateControlParameter_def isBandLevelIndexInRange_def setVolumeStereo_def

lemma upt_0_5: "[0..<5] = [0, 1, 2, 3, 4]"
  by (simp add: upt_rec)

lemma option_pair_the: "R \<noteq> None \<Longrightarrow> fst (the R) = r \<Longrightarrow> R = Some (r, snd (the R))"
  by (cases R) auto

section \<open>The claims about the context\<close>

subsection \<open>Enable and disable\<close>

text \<open>
  Claim C4, as amended. \<^verbatim>\<open>enable()\<close> on an enabled context and \<^verbatim>\<open>disable()\<close> on a context
  that is not enabled return \<^verbatim>\<open>RetCode::ERROR_ILLEGAL_PARAMETER\<close>, the code of the
  illegal-parameter class, and leave every member as it was.
\<close>

theorem enable_disable_guard:
  "(mEnabled ctx \<longrightarrow> enable K ctx = (ERROR_ILLEGAL_PARAMETER, ctx))
   \<and> (\<not> mEnabled ctx \<longrightarrow> disable K ctx = (ERROR_ILLEGAL_PARAMETER, ctx))
   \<and> retCodeClass ERROR_ILLEGAL_PARAMETER = Some IllegalParameter"
  by (simp add: enable_def disable_def)

theorem enable_disable_guard_witness:
  "mEnabled (exampleCtx\<lparr>mEnabled := True\<rparr>)
   \<and> enable exampleK (exampleCtx\<lparr>mEnabled := True\<rparr>)
       = (ERROR_ILLEGAL_PARAMETER, exampleCtx\<lparr>mEnabled := True\<rparr>)
   \<and> \<not> mEnabled exampleCtx
   \<and> disable exampleK exampleCtx = (ERROR_ILLEGAL_PARAMETER, exampleCtx)"
  using enable_disable_guard [of "exampleCtx\<lparr>mEnabled := True\<rparr>" exampleK]
    enable_disable_guard [of exampleCtx exampleK]
  by (simp add: exampleCtx_def)

text \<open>
  Claim C4 as stated fails: the code returned by a second \<^verbatim>\<open>enable()\<close>, and by a
  \<^verbatim>\<open>disable()\<close> of a context that was never enabled, is not of the illegal-state class.
\<close>

theorem enable_disable_guard_not_illegal_state:
  "retCodeClass (fst (enable exampleK (snd (enable exampleK exampleCtx)))) \<noteq> Some IllegalState
   \<and> retCodeClass (fst (disable exampleK exampleCtx)) \<noteq> Some IllegalState"
proof -
  have "mEnabled (snd (enable exampleK exampleCtx))" by (rule enable_sets_mEnabled)
  then have "fst (enable exampleK (snd (enable exampleK exampleCtx))) = ERROR_ILLEGAL_PARAMETER"
    by (simp add: enable_def [of exampleK "snd (enable exampleK exampleCtx)"])
  moreover have "fst (disable exampleK exampleCtx) = ERROR_ILLEGAL_PARAMETER"
    by (simp add: disable_def exampleCtx_def)
  ultimately show ?thesis by simp
qed

text \<open>
  Claim C9. When the engine rejects any call that \<^verbatim>\<open>enable()\<close> makes on a context that
  was not enabled (the reads and the pushes of the operating mode and of the limited
  level, and the no-smoothing call), \<^verbatim>\<open>enable()\<close> returns the engine error and still
  leaves the context marked as enabled: it is not the context from before the call, and
  the next \<^verbatim>\<open>enable()\<close> is refused as already enabled and changes nothing.
\<close>

theorem enable_keeps_flag_on_engine_failure:
  assumes "\<not> mEnabled ctx"
    and "\<not> list_all callOk (newCalls ctx (snd (enable K ctx)))"
  shows "fst (enable K ctx) = ERROR_EFFECT_LIB_ERROR
    \<and> mEnabled (snd (enable K ctx))
    \<and> enable K (snd (enable K ctx)) = (ERROR_ILLEGAL_PARAMETER, snd (enable K ctx))
    \<and> snd (enable K ctx) \<noteq> ctx"
proof -
  have en: "mEnabled (snd (enable K ctx))" by (rule enable_sets_mEnabled)
  have "fst (enable K ctx) = ERROR_EFFECT_LIB_ERROR"
    using assms by (simp add: enable_ret)
  moreover have "enable K (snd (enable K ctx)) = (ERROR_ILLEGAL_PARAMETER, snd (enable K ctx))"
    using en by (simp add: enable_def [of K "snd (enable K ctx)"])
  moreover have "snd (enable K ctx) \<noteq> ctx" using en assms(1) by auto
  ultimately show ?thesis using en by simp
qed

text \<open>
  Two runs. In the first the engine accepts the read and rejects the push of the
  operating mode; in the second it rejects the push of the limited level that follows.
\<close>

theorem enable_keeps_flag_witness:
  "\<not> mEnabled (exampleCtxWith [LVM_SUCCESS, LVM_FAILED])
   \<and> newCalls (exampleCtxWith [LVM_SUCCESS, LVM_FAILED])
        (snd (enable exampleK (exampleCtxWith [LVM_SUCCESS, LVM_FAILED])))
      = [GetControlParameters LVM_SUCCESS,
         SetControlParameters ((held exampleEngine)\<lparr>EQNB_OperatingMode := LVM_EQNB_ON\<rparr>) LVM_FAILED]
   \<and> fst (enable exampleK (exampleCtxWith [LVM_SUCCESS, LVM_FAILED])) = ERROR_EFFECT_LIB_ERROR
   \<and> mEnabled (snd (enable exampleK (exampleCtxWith [LVM_SUCCESS, LVM_FAILED])))
   \<and> fst (enable exampleK (snd (enable exampleK (exampleCtxWith [LVM_SUCCESS, LVM_FAILED]))))
      = ERROR_ILLEGAL_PARAMETER
   \<and> newCalls (exampleCtxWith [LVM_SUCCESS, LVM_SUCCESS, LVM_SUCCESS, LVM_FAILED])
        (snd (enable exampleK (exampleCtxWith [LVM_SUCCESS, LVM_SUCCESS, LVM_SUCCESS, LVM_FAILED])))
      = [GetControlParameters LVM_SUCCESS,
         SetControlParameters ((held exampleEngine)\<lparr>EQNB_OperatingMode := LVM_EQNB_ON\<rparr>) LVM_SUCCESS,
         GetControlParameters LVM_SUCCESS,
         SetControlParameters ((held exampleEngine)\<lparr>EQNB_OperatingMode := LVM_EQNB_ON\<rparr>) LVM_FAILED]
   \<and> fst (enable exampleK (exampleCtxWith [LVM_SUCCESS, LVM_SUCCESS, LVM_SUCCESS, LVM_FAILED]))
      = ERROR_EFFECT_LIB_ERROR
   \<and> mEnabled (snd (enable exampleK
        (exampleCtxWith [LVM_SUCCESS, LVM_SUCCESS, LVM_SUCCESS, LVM_FAILED])))"
proof -
  let ?c = "exampleCtxWith [LVM_SUCCESS, LVM_FAILED]"
  let ?d = "exampleCtxWith [LVM_SUCCESS, LVM_SUCCESS, LVM_SUCCESS, LVM_FAILED]"
  have a: "\<not> mEnabled ?c" "\<not> mEnabled ?d" by (simp_all add: example_defs)
  have n: "newCalls ?c (snd (enable exampleK ?c))
      = [GetControlParameters LVM_SUCCESS,
         SetControlParameters ((held exampleEngine)\<lparr>EQNB_OperatingMode := LVM_EQNB_ON\<rparr>) LVM_FAILED]"
    by (simp add: enable_def enableOperatingMode_def example_defs engine_defs newCalls_def Let_def)
  then have b: "\<not> list_all callOk (newCalls ?c (snd (enable exampleK ?c)))" by simp
  have m: "newCalls ?d (snd (enable exampleK ?d))
      = [GetControlParameters LVM_SUCCESS,
         SetControlParameters ((held exampleEngine)\<lparr>EQNB_OperatingMode := LVM_EQNB_ON\<rparr>) LVM_SUCCESS,
         GetControlParameters LVM_SUCCESS,
         SetControlParameters ((held exampleEngine)\<lparr>EQNB_OperatingMode := LVM_EQNB_ON\<rparr>) LVM_FAILED]"
    by (simp add: enable_def enableOperatingMode_def limitLevel_def example_estimate
        gainCorrectionOf_zero effectLevelOf_def exampleCtx_def exampleEngine_def
        exampleCtxWith_def engine_defs newCalls_def Let_def)
  then have e: "\<not> list_all callOk (newCalls ?d (snd (enable exampleK ?d)))" by simp
  from enable_keeps_flag_on_engine_failure [OF a(1) b]
    enable_keeps_flag_on_engine_failure [OF a(2) e] a n m
  show ?thesis by simp
qed

subsection \<open>The first volume\<close>

lemma firstVolumeRule_once:
  assumes "firstVolumeRule f ns f'"
  shows "length (filter callOk ns) \<le> 1"
proof (cases "ns = []")
  case True
  then show ?thesis by simp
next
  case False
  then have "ns = butlast ns @ [last ns]" by simp
  then have "filter callOk ns = filter callOk (butlast ns) @ filter callOk [last ns]"
    by (metis filter_append)
  moreover have "filter callOk (butlast ns) = []"
    using assms by (auto simp: firstVolumeRule_def list_all_iff filter_empty_conv)
  ultimately show ?thesis by simp
qed

text \<open>
  Claim C7, as amended. Over any session, the calls of \<^verbatim>\<open>LVM_SetVolumeNoSmoothing\<close>
  follow the first-volume rule: the engine accepts at most one of them, an accepted one
  is the last one made, the flag \<^verbatim>\<open>mFirstVolume\<close> is clear exactly from then on, and a
  session that starts with the flag clear makes none. A \<^verbatim>\<open>limitLevel()\<close> that finds the
  flag set and whose read and push of the parameters the engine accepts makes the call
  exactly once, as its last engine call, whatever the level; the flag is cleared, and
  \<^verbatim>\<open>SUCCESS\<close> returned, exactly when the engine accepts that call. A \<^verbatim>\<open>limitLevel()\<close>
  that finds the flag clear, or whose read or push is rejected, does not make the call
  and leaves the flag as it was. (A rejected call leaves the flag set, so the next
  \<^verbatim>\<open>limitLevel()\<close> whose read and push are accepted makes the call again.)
\<close>

theorem noSmoothing_until_accepted:
  "(sessionAfter K cs ctx = Some ctx' \<longrightarrow>
      firstVolumeRule (mFirstVolume ctx) (filter isNoSmoothing (newCalls ctx ctx'))
        (mFirstVolume ctx')
      \<and> length (filter callOk (filter isNoSmoothing (newCalls ctx ctx'))) \<le> 1)
   \<and> (mFirstVolume ctx
        \<and> list_all callOk
              (filter (\<lambda>c. \<not> isNoSmoothing c) (newCalls ctx (snd (limitLevel K ctx)))) \<longrightarrow>
        length (filter isNoSmoothing (newCalls ctx (snd (limitLevel K ctx)))) = 1
        \<and> isNoSmoothing (last (newCalls ctx (snd (limitLevel K ctx))))
        \<and> mFirstVolume (snd (limitLevel K ctx))
            = (\<not> callOk (last (newCalls ctx (snd (limitLevel K ctx)))))
        \<and> (fst (limitLevel K ctx) = SUCCESS)
            = callOk (last (newCalls ctx (snd (limitLevel K ctx)))))
   \<and> (\<not> mFirstVolume ctx
        \<or> \<not> list_all callOk
              (filter (\<lambda>c. \<not> isNoSmoothing c) (newCalls ctx (snd (limitLevel K ctx)))) \<longrightarrow>
        filter isNoSmoothing (newCalls ctx (snd (limitLevel K ctx))) = []
        \<and> mFirstVolume (snd (limitLevel K ctx)) = mFirstVolume ctx)
   \<and> (mFirstVolume ctx \<and> fst (limitLevel K ctx) = SUCCESS \<longrightarrow>
        length (filter isNoSmoothing (newCalls ctx (snd (limitLevel K ctx)))) = 1
        \<and> \<not> mFirstVolume (snd (limitLevel K ctx)))"
proof -
  let ?new = "newCalls ctx (snd (limitLevel K ctx))"
  have "firstVolumeRule (mFirstVolume ctx) (filter isNoSmoothing (newCalls ctx ctx'))
        (mFirstVolume ctx')
      \<and> length (filter callOk (filter isNoSmoothing (newCalls ctx ctx'))) \<le> 1"
    if "sessionAfter K cs ctx = Some ctx'"
  proof -
    from sessionAfter_traced [OF that]
    have r: "firstVolumeRule (mFirstVolume ctx) (filter isNoSmoothing (newCalls ctx ctx'))
        (mFirstVolume ctx')"
      by (simp add: traced_def)
    from r firstVolumeRule_once [OF r] show ?thesis by (rule conjI)
  qed
  moreover have "length (filter isNoSmoothing ?new) = 1
        \<and> isNoSmoothing (last ?new)
        \<and> mFirstVolume (snd (limitLevel K ctx)) = (\<not> callOk (last ?new))
        \<and> (fst (limitLevel K ctx) = SUCCESS) = callOk (last ?new)"
    if "mFirstVolume ctx" "list_all callOk (filter (\<lambda>c. \<not> isNoSmoothing c) ?new)"
    using that by (simp add: limitLevel_def newCalls_def Let_def split_beta split: if_splits)
  moreover have "filter isNoSmoothing ?new = []
        \<and> mFirstVolume (snd (limitLevel K ctx)) = mFirstVolume ctx"
    if "\<not> mFirstVolume ctx \<or> \<not> list_all callOk (filter (\<lambda>c. \<not> isNoSmoothing c) ?new)"
    using that by (auto simp: limitLevel_def newCalls_def Let_def split_beta split: if_splits)
  moreover have "length (filter isNoSmoothing ?new) = 1
        \<and> \<not> mFirstVolume (snd (limitLevel K ctx))"
    if "mFirstVolume ctx" "fst (limitLevel K ctx) = SUCCESS"
    using that by (simp add: limitLevel_def newCalls_def Let_def split_beta split: if_splits)
  ultimately show ?thesis by blast
qed

text \<open>
  A session on an engine that accepts everything, and three single \<^verbatim>\<open>limitLevel()\<close>
  calls with the flag set: the engine accepts all three calls; it rejects the
  no-smoothing call; it rejects the push, so that no no-smoothing call is made.
\<close>

theorem noSmoothing_until_accepted_witness:
  "sessionAfter exampleK [Enable, Disable, LimitLevel] exampleCtx \<noteq> None
   \<and> length (filter callOk (filter isNoSmoothing (newCalls exampleCtx
        (the (sessionAfter exampleK [Enable, Disable, LimitLevel] exampleCtx))))) \<le> 1
   \<and> mFirstVolume exampleCtx
   \<and> newCalls exampleCtx (snd (limitLevel exampleK exampleCtx))
       = [GetControlParameters LVM_SUCCESS,
          SetControlParameters (held exampleEngine) LVM_SUCCESS,
          SetVolumeNoSmoothing (held exampleEngine) LVM_SUCCESS]
   \<and> fst (limitLevel exampleK exampleCtx) = SUCCESS
   \<and> \<not> mFirstVolume (snd (limitLevel exampleK exampleCtx))
   \<and> mFirstVolume (exampleCtxWith [LVM_SUCCESS, LVM_SUCCESS, LVM_FAILED])
   \<and> newCalls (exampleCtxWith [LVM_SUCCESS, LVM_SUCCESS, LVM_FAILED])
        (snd (limitLevel exampleK (exampleCtxWith [LVM_SUCCESS, LVM_SUCCESS, LVM_FAILED])))
       = [GetControlParameters LVM_SUCCESS,
          SetControlParameters (held exampleEngine) LVM_SUCCESS,
          SetVolumeNoSmoothing (held exampleEngine) LVM_FAILED]
   \<and> fst (limitLevel exampleK (exampleCtxWith [LVM_SUCCESS, LVM_SUCCESS, LVM_FAILED]))
       \<noteq> SUCCESS
   \<and> mFirstVolume (snd (limitLevel exampleK (exampleCtxWith [LVM_SUCCESS, LVM_SUCCESS, LVM_FAILED])))
   \<and> mFirstVolume (exampleCtxWith [LVM_SUCCESS, LVM_FAILED])
   \<and> newCalls (exampleCtxWith [LVM_SUCCESS, LVM_FAILED])
        (snd (limitLevel exampleK (exampleCtxWith [LVM_SUCCESS, LVM_FAILED])))
       = [GetControlParameters LVM_SUCCESS,
          SetControlParameters (held exampleEngine) LVM_FAILED]
   \<and> mFirstVolume (snd (limitLevel exampleK (exampleCtxWith [LVM_SUCCESS, LVM_FAILED])))"
proof -
  let ?a = exampleCtx
  let ?b = "exampleCtxWith [LVM_SUCCESS, LVM_SUCCESS, LVM_FAILED]"
  let ?c = "exampleCtxWith [LVM_SUCCESS, LVM_FAILED]"
  have s: "sessionAfter exampleK [Enable, Disable, LimitLevel] exampleCtx \<noteq> None"
    by (simp add: enable_def disable_def enableOperatingMode_def disableOperatingMode_def
        example_defs level_defs engine_defs tenthOf_def effectBit_def Let_def)
  have f: "mFirstVolume ?a" "mFirstVolume ?b" "mFirstVolume ?c" by (simp_all add: example_defs)
  have na: "newCalls ?a (snd (limitLevel exampleK ?a))
       = [GetControlParameters LVM_SUCCESS,
          SetControlParameters (held exampleEngine) LVM_SUCCESS,
          SetVolumeNoSmoothing (held exampleEngine) LVM_SUCCESS]"
    by (simp add: example_defs level_defs engine_defs newCalls_def Let_def)
  have nb: "newCalls ?b (snd (limitLevel exampleK ?b))
       = [GetControlParameters LVM_SUCCESS,
          SetControlParameters (held exampleEngine) LVM_SUCCESS,
          SetVolumeNoSmoothing (held exampleEngine) LVM_FAILED]"
    by (simp add: example_defs level_defs engine_defs newCalls_def Let_def)
  have nc: "newCalls ?c (snd (limitLevel exampleK ?c))
       = [GetControlParameters LVM_SUCCESS,
          SetControlParameters (held exampleEngine) LVM_FAILED]"
    by (simp add: example_defs level_defs engine_defs newCalls_def Let_def)
  from s noSmoothing_until_accepted [of exampleK "[Enable, Disable, LimitLevel]" ?a
      "the (sessionAfter exampleK [Enable, Disable, LimitLevel] exampleCtx)"]
  have 1: "length (filter callOk (filter isNoSmoothing (newCalls exampleCtx
        (the (sessionAfter exampleK [Enable, Disable, LimitLevel] exampleCtx))))) \<le> 1"
    by auto
  from noSmoothing_until_accepted [of exampleK "[]" ?a ?a] f(1) na
  have 2: "fst (limitLevel exampleK ?a) = SUCCESS \<and> \<not> mFirstVolume (snd (limitLevel exampleK ?a))"
    by simp
  from noSmoothing_until_accepted [of exampleK "[]" ?b ?b] f(2) nb
  have 3: "fst (limitLevel exampleK ?b) \<noteq> SUCCESS \<and> mFirstVolume (snd (limitLevel exampleK ?b))"
    by simp
  from noSmoothing_until_accepted [of exampleK "[]" ?c ?c] f(3) nc
  have 4: "mFirstVolume (snd (limitLevel exampleK ?c))"
    by simp
  from s 1 f na 2 nb 3 nc 4 show ?thesis by blast
qed

text \<open>
  Claim C7 as stated fails. The engine accepts the read and the push of the first
  \<^verbatim>\<open>limitLevel()\<close> and rejects its no-smoothing call; the second \<^verbatim>\<open>limitLevel()\<close> of the
  session makes the no-smoothing call again.
\<close>

theorem noSmoothing_twice_after_rejection:
  "map_option (\<lambda>c. filter isNoSmoothing
                      (newCalls (exampleCtxWith [LVM_SUCCESS, LVM_SUCCESS, LVM_FAILED]) c))
     (sessionAfter exampleK [LimitLevel, LimitLevel]
        (exampleCtxWith [LVM_SUCCESS, LVM_SUCCESS, LVM_FAILED]))
   = Some [SetVolumeNoSmoothing (held exampleEngine) LVM_FAILED,
           SetVolumeNoSmoothing (held exampleEngine) LVM_SUCCESS]"
  by (simp add: example_defs level_defs engine_defs newCalls_def Let_def)

subsection \<open>The setters and the mirror\<close>

text \<open>
  Claim C3. Each of \<^verbatim>\<open>setEqualizerBandLevels\<close>, \<^verbatim>\<open>setEqualizerPreset\<close> and
  \<^verbatim>\<open>setVolumeStereo\<close> keeps the commit rule: when the engine rejects the read or the
  write of the control parameters the setter returns \<^verbatim>\<open>ERROR_EFFECT_LIB_ERROR\<close> and the
  band gains, the preset marker and the stored stereo volume are as before; they are as
  before after any failure; and they only differ after a read and a write that the
  engine both accepted. The first setter always returns, and so does the second when
  there is at least one band.
\<close>

theorem setters_commit_after_engine:
  "(setEqualizerBandLevels K uninit bandLevels ctx = Some (ret, ctx') \<longrightarrow> commitRule ctx ret ctx')
   \<and> (setEqualizerPreset K uninit presetIdx ctx = Some (ret, ctx') \<longrightarrow> commitRule ctx ret ctx')
   \<and> (setVolumeStereo volume ctx = (ret, ctx') \<longrightarrow> commitRule ctx ret ctx')
   \<and> setEqualizerBandLevels K uninit bandLevels ctx \<noteq> None
   \<and> (0 < MAX_NUM_BANDS K \<longrightarrow> setEqualizerPreset K uninit presetIdx ctx \<noteq> None)"
  using setEqualizerBandLevels_commit [of K uninit bandLevels ctx ret ctx']
    setEqualizerPreset_commit [of K uninit presetIdx ctx ret ctx']
    setVolumeStereo_commit [of ctx volume]
    setEqualizerBandLevels_total [of K uninit bandLevels ctx]
    setEqualizerPreset_total [of K uninit presetIdx ctx]
  by auto

text \<open>
  Three runs: a band-level update whose push the engine rejects, a preset that the engine
  accepts and that changes the mirror, and a stereo volume whose read the engine rejects.
\<close>

theorem setters_commit_witness:
  "fst (the (setEqualizerBandLevels exampleK (\<lambda>i. 0) [\<lparr>index = 1, levelMb = 300\<rparr>]
          (exampleCtxWith [LVM_SUCCESS, LVM_FAILED]))) = ERROR_EFFECT_LIB_ERROR
   \<and> mirror (snd (the (setEqualizerBandLevels exampleK (\<lambda>i. 0) [\<lparr>index = 1, levelMb = 300\<rparr>]
          (exampleCtxWith [LVM_SUCCESS, LVM_FAILED])))) = mirror (exampleCtxWith [LVM_SUCCESS, LVM_FAILED])
   \<and> fst (the (setEqualizerPreset exampleK (\<lambda>i. 0) 0 exampleCtx)) = SUCCESS
   \<and> mirror (snd (the (setEqualizerPreset exampleK (\<lambda>i. 0) 0 exampleCtx))) \<noteq> mirror exampleCtx
   \<and> newCalls exampleCtx (snd (the (setEqualizerPreset exampleK (\<lambda>i. 0) 0 exampleCtx)))
       = [GetControlParameters LVM_SUCCESS,
          SetControlParameters
            (held (mInstance (snd (the (setEqualizerPreset exampleK (\<lambda>i. 0) 0 exampleCtx)))))
            LVM_SUCCESS]
   \<and> fst (setVolumeStereo \<lparr>left = 2, right = 4\<rparr> (exampleCtxWith [LVM_FAILED]))
       = ERROR_EFFECT_LIB_ERROR
   \<and> mirror (snd (setVolumeStereo \<lparr>left = 2, right = 4\<rparr> (exampleCtxWith [LVM_FAILED])))
       = mirror (exampleCtxWith [LVM_FAILED])"
proof -
  let ?c1 = "exampleCtxWith [LVM_SUCCESS, LVM_FAILED]"
  let ?R1 = "setEqualizerBandLevels exampleK (\<lambda>i. 0) [\<lparr>index = 1, levelMb = 300\<rparr>] ?c1"
  let ?R2 = "setEqualizerPreset exampleK (\<lambda>i. 0) 0 exampleCtx"
  let ?c3 = "exampleCtxWith [LVM_FAILED]"
  let ?R3 = "setVolumeStereo \<lparr>left = 2, right = 4\<rparr> ?c3"
  have r1: "?R1 \<noteq> None"
    by (simp add: setter_defs example_defs engine_defs upt_0_5 Let_def)
  then have s1: "?R1 = Some (fst (the ?R1), snd (the ?R1))" by (simp add: option_pair_the)
  have f1: "\<not> list_all callOk (newCalls ?c1 (snd (the ?R1)))"
    by (simp add: setter_defs example_defs engine_defs newCalls_def upt_0_5 Let_def)
  have r2: "?R2 \<noteq> None"
    by (simp add: setter_defs example_defs engine_defs upt_0_5 Let_def)
  then have s2: "?R2 = Some (fst (the ?R2), snd (the ?R2))" by (simp add: option_pair_the)
  have m2: "mirror (snd (the ?R2)) \<noteq> mirror exampleCtx"
    by (simp add: setter_defs example_defs engine_defs mirror_def upt_0_5 Let_def)
  have s3: "?R3 = (fst ?R3, snd ?R3)" by simp
  have f3: "\<not> list_all callOk (newCalls ?c3 (snd ?R3))"
    by (simp add: setVolumeStereo_unfold example_defs engine_defs newCalls_def Let_def)
  from setters_commit_after_engine [where K = exampleK and uninit = "\<lambda>i. 0"
      and bandLevels = "[\<lparr>index = 1, levelMb = 300\<rparr>]" and ctx = ?c1
      and ret = "fst (the ?R1)" and ctx' = "snd (the ?R1)"] s1 f1
  have 1: "fst (the ?R1) = ERROR_EFFECT_LIB_ERROR \<and> mirror (snd (the ?R1)) = mirror ?c1"
    by (simp add: commitRule_def)
  from setters_commit_after_engine [where K = exampleK and uninit = "\<lambda>i. 0"
      and presetIdx = 0 and ctx = exampleCtx and ret = "fst (the ?R2)" and ctx' = "snd (the ?R2)"]
    s2 m2
  have 2: "fst (the ?R2) = SUCCESS \<and> newCalls exampleCtx (snd (the ?R2))
       = [GetControlParameters LVM_SUCCESS,
          SetControlParameters (held (mInstance (snd (the ?R2)))) LVM_SUCCESS]"
    by (auto simp: commitRule_def)
  from setters_commit_after_engine [where volume = "\<lparr>left = 2, right = 4\<rparr>" and ctx = ?c3
      and ret = "fst ?R3" and ctx' = "snd ?R3"] s3 f3
  have 3: "fst ?R3 = ERROR_EFFECT_LIB_ERROR \<and> mirror (snd ?R3) = mirror ?c3"
    by (simp add: commitRule_def)
  from 1 2 m2 3 show ?thesis by blast
qed

subsection \<open>Level limiting with flat bands\<close>

text \<open>
  Claim C6, as amended. When every mirrored band gain is 0, the saved level lies above
  \<open>- 96\<close> and is not positive, and the engine accepts the read of its parameters,
  \<^verbatim>\<open>limitLevel()\<close> computes the gain correction 0, whether or not the equalizer is on, and
  the one push it makes carries the saved level itself as \<^verbatim>\<open>VC_EffectLevel\<close>.
\<close>

theorem limitLevel_flat_bands:
  assumes "mBandGaindB ctx = replicate (MAX_NUM_BANDS K) 0"
    and "- 96 < mLevelSaved ctx" and "mLevelSaved ctx \<le> 0"
    and "fst (fst (LVM_GetControlParameters (mInstance ctx))) = LVM_SUCCESS"
  shows "gainCorrectionOf (totalEnergyEstimation K eqEnabled (mBandGaindB ctx)) (mLevelSaved ctx) = 0
    \<and> List.map_filter pushedLevel (newCalls ctx (snd (limitLevel K ctx))) = [mLevelSaved ctx]"
proof -
  have g: "gainCorrectionOf (totalEnergyEstimation K e (mBandGaindB ctx)) (mLevelSaved ctx) = 0"
    for e
    using assms(3) by (simp add: assms(1) totalEnergyEstimation_zero gainCorrectionOf_zero)
  have l: "effectLevelOf (mLevelSaved ctx) 0 = mLevelSaved ctx"
    using assms(2) by (simp add: effectLevelOf_def)
  have "List.map_filter pushedLevel (newCalls ctx (snd (limitLevel K ctx))) = [mLevelSaved ctx]"
    using assms(4)
    by (simp add: limitLevel_def newCalls_def Let_def split_beta g l List.map_filter_simps)
  with g show ?thesis by simp
qed

theorem limitLevel_flat_bands_witness:
  "mBandGaindB (exampleCtx\<lparr>mLevelSaved := - 6\<rparr>) = replicate (MAX_NUM_BANDS exampleK) 0
   \<and> gainCorrectionOf (totalEnergyEstimation exampleK True
        (mBandGaindB (exampleCtx\<lparr>mLevelSaved := - 6\<rparr>))) (- 6) = 0
   \<and> List.map_filter pushedLevel
        (newCalls (exampleCtx\<lparr>mLevelSaved := - 6\<rparr>)
           (snd (limitLevel exampleK (exampleCtx\<lparr>mLevelSaved := - 6\<rparr>)))) = [- 6]"
proof -
  let ?c = "exampleCtx\<lparr>mLevelSaved := - 6\<rparr>"
  have a: "mBandGaindB ?c = replicate (MAX_NUM_BANDS exampleK) 0"
    by (simp add: example_defs numeral_eq_Suc)
  have b: "- 96 < mLevelSaved ?c" "mLevelSaved ?c \<le> 0" by (simp_all add: example_defs)
  have c: "fst (fst (LVM_GetControlParameters (mInstance ?c))) = LVM_SUCCESS"
    by (simp add: example_defs engine_defs)
  from limitLevel_flat_bands [OF a b c, of True] a show ?thesis by simp
qed

text \<open>
  Claim C6 as stated fails for a positive saved level, which is above \<open>- 96\<close>: with all
  gains 0 and \<^verbatim>\<open>mLevelSaved = 5\<close> the gain correction is 5 and the level pushed is 0.
\<close>

theorem limitLevel_flat_bands_positive_level:
  "(- 96 :: int) < 5
   \<and> gainCorrectionOf (totalEnergyEstimation exampleK False [0, 0, 0, 0, 0]) 5 = 5
   \<and> gainCorrectionOf (totalEnergyEstimation exampleK True [0, 0, 0, 0, 0]) 5 = 5
   \<and> List.map_filter pushedLevel
        (newCalls (exampleCtx\<lparr>mLevelSaved := 5\<rparr>)
           (snd (limitLevel exampleK (exampleCtx\<lparr>mLevelSaved := 5\<rparr>)))) = [0]"
proof -
  have z: "totalEnergyEstimation exampleK e [0, 0, 0, 0, 0] = 0" for e
    using totalEnergyEstimation_zero [of exampleK e] by (simp add: exampleK_def numeral_eq_Suc)
  have g: "gainCorrectionOf 0 5 = 5" by (simp add: gainCorrectionOf_zero)
  have "List.map_filter pushedLevel
        (newCalls (exampleCtx\<lparr>mLevelSaved := 5\<rparr>)
           (snd (limitLevel exampleK (exampleCtx\<lparr>mLevelSaved := 5\<rparr>)))) = [0]"
    by (simp add: limitLevel_def exampleCtx_def exampleEngine_def z g effectLevelOf_def
        engine_defs newCalls_def Let_def List.map_filter_simps)
  with z g show ?thesis by simp
qed


subsection \<open>Band levels\<close>

lemma fold_update_nth:
  assumes "i < length t" "list_all (\<lambda>b. 0 \<le> index b) bandLevels"
  shows "fold (\<lambda>it t. t[nat (index it) := levelMb it]) bandLevels t ! i
     = lastLevel (int i) bandLevels (t ! i)"
  using assms
proof (induction bandLevels arbitrary: t)
  case Nil
  then show ?case by (simp add: lastLevel_def)
next
  case (Cons b bs)
  from Cons.prems have b: "0 \<le> index b" and bs: "list_all (\<lambda>b. 0 \<le> index b) bs" by simp_all
  have len: "i < length (t[nat (index b) := levelMb b])" using Cons.prems(1) by simp
  have eq: "(nat (index b) = i) = (index b = int i)" using b by auto
  have "t[nat (index b) := levelMb b] ! i = (if index b = int i then levelMb b else t ! i)"
    using Cons.prems(1) eq by (simp add: nth_list_update)
  with Cons.IH [OF len bs] show ?case by (simp add: lastLevel_def)
qed

lemma lastLevel_absent:
  "i \<notin> index ` set bandLevels \<Longrightarrow> lastLevel i bandLevels v = v"
  unfolding lastLevel_def by (induction bandLevels arbitrary: v) auto

lemma lastLevel_distinct:
  "distinct (map index bandLevels) \<Longrightarrow> b \<in> set bandLevels \<Longrightarrow>
   lastLevel (index b) bandLevels v = levelMb b"
proof (induction bandLevels arbitrary: v)
  case Nil
  then show ?case by simp
next
  case (Cons a bs)
  show ?case
  proof (cases "b \<in> set bs")
    case True
    with Cons.prems have "distinct (map index bs)" by simp
    from Cons.IH [OF this True] show ?thesis by (simp add: lastLevel_def)
  next
    case False
    with Cons.prems have ab: "a = b" and "index b \<notin> index ` set bs" by auto
    from lastLevel_absent [OF this(2)] ab show ?thesis by (simp add: lastLevel_def)
  qed
qed

lemma inRange_nonneg:
  "list_all (\<lambda>b. 0 \<le> index b \<and> index b < n) bandLevels \<Longrightarrow>
   list_all (\<lambda>b. 0 \<le> index b) bandLevels"
  by (simp add: list_all_iff)

text \<open>What a successful band-level update leaves in the mirror and in the engine.\<close>

lemma setEqualizerBandLevels_success:
  assumes "setEqualizerBandLevels K uninit bandLevels ctx = Some (SUCCESS, ctx')"
  shows "list_all (\<lambda>b. 0 \<le> index b \<and> index b < int (MAX_NUM_BANDS K)) bandLevels"
    and "mBandGaindB ctx' = map (\<lambda>i. lastLevel (int i) bandLevels (uninit i)) [0..<MAX_NUM_BANDS K]"
    and "map Gain (take (MAX_NUM_BANDS K) (pEQNB_BandDefinition (held (mInstance ctx'))))
           = mBandGaindB ctx'"
    and "mCurPresetIdx ctx' = PRESET_CUSTOM K"
proof -
  from assms have ne: "bandLevels \<noteq> []"
    by (auto simp: setEqualizerBandLevels_def split: if_splits)
  from assms obtain c where u: "updateControlParameter K uninit bandLevels ctx = Some (SUCCESS, c)"
    and c: "ctx' = c\<lparr>mCurPresetIdx := PRESET_CUSTOM K\<rparr>"
    by (auto simp: setEqualizerBandLevels_def split: option.splits if_splits)
  let ?t = "fold (\<lambda>it t. t[nat (index it) := levelMb it]) bandLevels
              (map uninit [0..<MAX_NUM_BANDS K])"
  have len: "length ?t = MAX_NUM_BANDS K"
    by (induction bandLevels rule: rev_induct) simp_all
  from u obtain e where e: "c = ctx\<lparr>mInstance := e, mBandGaindB := ?t\<rparr>"
    "pEQNB_BandDefinition (held e) =
       map (\<lambda>i. \<lparr>Gain = ?t ! i, Frequency = kPresetsFrequencies K i,
                  QFactor = kPresetsQFactors K i\<rparr>) [0..<MAX_NUM_BANDS K]
       @ drop (MAX_NUM_BANDS K) (pEQNB_BandDefinition (held (mInstance ctx)))"
    "isBandLevelIndexInRange K bandLevels = Some True"
    by (cases rule: updateControlParameter_cases) simp_all
  from e(3) show r: "list_all (\<lambda>b. 0 \<le> index b \<and> index b < int (MAX_NUM_BANDS K)) bandLevels"
    by (simp add: isBandLevelIndexInRange_iff [OF ne])
  have nth: "?t ! i = lastLevel (int i) bandLevels (uninit i)" if "i < MAX_NUM_BANDS K" for i
    using fold_update_nth [OF _ inRange_nonneg [OF r], of i "map uninit [0..<MAX_NUM_BANDS K]"] that
    by simp
  show g: "mBandGaindB ctx' = map (\<lambda>i. lastLevel (int i) bandLevels (uninit i)) [0..<MAX_NUM_BANDS K]"
    unfolding c e(1) using len nth by (auto intro: nth_equalityI)
  have "map Gain (take (MAX_NUM_BANDS K) (pEQNB_BandDefinition (held (mInstance ctx')))) = ?t"
    unfolding c e(1) using len by (auto simp: e(2) intro: nth_equalityI)
  then show "map Gain (take (MAX_NUM_BANDS K) (pEQNB_BandDefinition (held (mInstance ctx'))))
           = mBandGaindB ctx'"
    by (simp add: c e(1))
  show "mCurPresetIdx ctx' = PRESET_CUSTOM K" by (simp add: c)
qed

lemma setEqualizerBandLevels_out_of_range:
  assumes "\<not> list_all (\<lambda>b. 0 \<le> index b \<and> index b < int (MAX_NUM_BANDS K)) bandLevels"
  shows "setEqualizerBandLevels K uninit bandLevels ctx = Some (ERROR_ILLEGAL_PARAMETER, ctx)"
proof -
  from assms have ne: "bandLevels \<noteq> []" by auto
  from assms have "isBandLevelIndexInRange K bandLevels = Some False"
    by (simp add: isBandLevelIndexInRange_iff [OF ne])
  then show ?thesis
    by (simp add: setEqualizerBandLevels_def updateControlParameter_def)
qed

text \<open>
  Claim C2, as amended. After a successful \<^verbatim>\<open>setEqualizerBandLevels\<close>,
  \<^verbatim>\<open>getEqualizerBandLevels\<close> returns for every band the level of the last entry of the
  update with that index (and for a band without an entry what the temporary array
  held); so when the indices of the update are pairwise distinct every entry of the
  update is among the levels returned. An update with an index outside
  \<open>[0, MAX_NUM_BANDS)\<close> fails with the illegal-parameter code and changes nothing.
\<close>

theorem bandLevels_round_trip:
  "(setEqualizerBandLevels K uninit bandLevels ctx = Some (SUCCESS, ctx') \<longrightarrow>
      getEqualizerBandLevels K ctx'
        = map (\<lambda>i. \<lparr>index = int i, levelMb = lastLevel (int i) bandLevels (uninit i)\<rparr>)
              [0..<MAX_NUM_BANDS K]
      \<and> (distinct (map index bandLevels) \<longrightarrow>
            set bandLevels \<subseteq> set (getEqualizerBandLevels K ctx')))
   \<and> (\<not> list_all (\<lambda>b. 0 \<le> index b \<and> index b < int (MAX_NUM_BANDS K)) bandLevels \<longrightarrow>
        setEqualizerBandLevels K uninit bandLevels ctx = Some (ERROR_ILLEGAL_PARAMETER, ctx)
        \<and> retCodeClass ERROR_ILLEGAL_PARAMETER = Some IllegalParameter)"
proof -
  have a: "getEqualizerBandLevels K ctx'
        = map (\<lambda>i. \<lparr>index = int i, levelMb = lastLevel (int i) bandLevels (uninit i)\<rparr>)
              [0..<MAX_NUM_BANDS K]"
    if s: "setEqualizerBandLevels K uninit bandLevels ctx = Some (SUCCESS, ctx')"
    by (simp add: getEqualizerBandLevels_def setEqualizerBandLevels_success(2) [OF s])
  have b: "set bandLevels \<subseteq> set (getEqualizerBandLevels K ctx')"
    if s: "setEqualizerBandLevels K uninit bandLevels ctx = Some (SUCCESS, ctx')"
      and d: "distinct (map index bandLevels)"
  proof
    fix x assume x: "x \<in> set bandLevels"
    from setEqualizerBandLevels_success(1) [OF s] x
    have r: "0 \<le> index x" "index x < int (MAX_NUM_BANDS K)" by (auto simp: list_all_iff)
    then have n: "nat (index x) < MAX_NUM_BANDS K" "int (nat (index x)) = index x" by auto
    have "x = \<lparr>index = int (nat (index x)),
               levelMb = lastLevel (int (nat (index x))) bandLevels (uninit (nat (index x)))\<rparr>"
      using r(1) by (simp add: lastLevel_distinct [OF d x])
    with n(1) show "x \<in> set (getEqualizerBandLevels K ctx')"
      unfolding a [OF s] by (auto simp: image_iff intro!: bexI [of _ "nat (index x)"])
  qed
  from a b setEqualizerBandLevels_out_of_range [of K bandLevels uninit ctx]
  show ?thesis by simp
qed

theorem bandLevels_round_trip_witness:
  "setEqualizerBandLevels exampleK (\<lambda>i. 0)
      [\<lparr>index = 1, levelMb = 300\<rparr>, \<lparr>index = 3, levelMb = - 200\<rparr>] exampleCtx \<noteq> None
   \<and> distinct (map index [\<lparr>index = 1, levelMb = 300\<rparr>, \<lparr>index = 3, levelMb = - 200\<rparr>])
   \<and> set [\<lparr>index = 1, levelMb = 300\<rparr>, \<lparr>index = 3, levelMb = - 200\<rparr>]
       \<subseteq> set (getEqualizerBandLevels exampleK (snd (the (setEqualizerBandLevels exampleK (\<lambda>i. 0)
            [\<lparr>index = 1, levelMb = 300\<rparr>, \<lparr>index = 3, levelMb = - 200\<rparr>] exampleCtx))))
   \<and> \<not> list_all (\<lambda>b. 0 \<le> index b \<and> index b < int (MAX_NUM_BANDS exampleK))
          [\<lparr>index = 5, levelMb = 100\<rparr>]
   \<and> setEqualizerBandLevels exampleK (\<lambda>i. 0) [\<lparr>index = 5, levelMb = 100\<rparr>] exampleCtx
       = Some (ERROR_ILLEGAL_PARAMETER, exampleCtx)"
proof -
  let ?bl = "[\<lparr>index = 1, levelMb = 300\<rparr>, \<lparr>index = 3, levelMb = - 200\<rparr>]"
  let ?R = "setEqualizerBandLevels exampleK (\<lambda>i. 0) ?bl exampleCtx"
  have "?R \<noteq> None \<and> fst (the ?R) = SUCCESS"
    by (simp add: setter_defs example_defs engine_defs upt_0_5 Let_def)
  then have s: "?R = Some (SUCCESS, snd (the ?R))" and n: "?R \<noteq> None"
    by (simp_all add: option_pair_the)
  have d: "distinct (map index ?bl)" by simp
  have o: "\<not> list_all (\<lambda>b. 0 \<le> index b \<and> index b < int (MAX_NUM_BANDS exampleK))
          [\<lparr>index = 5, levelMb = 100\<rparr>]"
    by (simp add: exampleK_def)
  from bandLevels_round_trip [of exampleK "\<lambda>i. 0" ?bl exampleCtx "snd (the ?R)"] s d
  have 1: "set ?bl \<subseteq> set (getEqualizerBandLevels exampleK (snd (the ?R)))" by blast
  from bandLevels_round_trip [of exampleK "\<lambda>i. 0" "[\<lparr>index = 5, levelMb = 100\<rparr>]" exampleCtx] o
  have 2: "setEqualizerBandLevels exampleK (\<lambda>i. 0) [\<lparr>index = 5, levelMb = 100\<rparr>] exampleCtx
       = Some (ERROR_ILLEGAL_PARAMETER, exampleCtx)" by blast
  from n d 1 o 2 show ?thesis by blast
qed

text \<open>
  Claim C2 as stated fails for an update that names a band twice: both indices are in
  range and the list is not longer than the number of bands, the call succeeds, and the
  level 500 of the first entry is not what is returned for band 0.
\<close>

theorem bandLevels_duplicate_index_not_returned:
  "map_option (\<lambda>(ret, c). (ret, getEqualizerBandLevels exampleK c))
     (setEqualizerBandLevels exampleK (\<lambda>i. 0)
        [\<lparr>index = 0, levelMb = 500\<rparr>, \<lparr>index = 0, levelMb = 700\<rparr>] exampleCtx)
   = Some (SUCCESS, [\<lparr>index = 0, levelMb = 700\<rparr>, \<lparr>index = 1, levelMb = 0\<rparr>,
                     \<lparr>index = 2, levelMb = 0\<rparr>, \<lparr>index = 3, levelMb = 0\<rparr>,
                     \<lparr>index = 4, levelMb = 0\<rparr>])"
  by (simp add: setter_defs getEqualizerBandLevels_def example_defs engine_defs upt_0_5 Let_def)

text \<open>
  Claim C10. After a successful \<^verbatim>\<open>setEqualizerBandLevels\<close> a band that the update does
  not name has, in the mirror and in the engine's band definition, the value that the
  uninitialised slot of \<^verbatim>\<open>tempLevel\<close> happened to hold, whatever its gain was before: the
  whole mirror and the gains of all \<open>MAX_NUM_BANDS\<close> band definitions are those of the
  temporary array.
\<close>

theorem omitted_bands_take_uninitialised_values:
  assumes "setEqualizerBandLevels K uninit bandLevels ctx = Some (SUCCESS, ctx')"
    and "i < MAX_NUM_BANDS K" and "int i \<notin> index ` set bandLevels"
  shows "mBandGaindB ctx' ! i = uninit i
    \<and> Gain (pEQNB_BandDefinition (held (mInstance ctx')) ! i) = uninit i
    \<and> mBandGaindB ctx' = map (\<lambda>i. lastLevel (int i) bandLevels (uninit i)) [0..<MAX_NUM_BANDS K]
    \<and> map Gain (take (MAX_NUM_BANDS K) (pEQNB_BandDefinition (held (mInstance ctx'))))
        = mBandGaindB ctx'"
proof -
  note s = setEqualizerBandLevels_success [OF assms(1)]
  have a: "mBandGaindB ctx' ! i = uninit i"
    using assms(2) by (simp add: s(2) lastLevel_absent [OF assms(3)])
  have len: "length (mBandGaindB ctx') = MAX_NUM_BANDS K" by (simp add: s(2))
  have "length (map Gain (take (MAX_NUM_BANDS K) (pEQNB_BandDefinition (held (mInstance ctx')))))
      = MAX_NUM_BANDS K"
    by (simp only: s(3) len)
  then have l2: "i < length (take (MAX_NUM_BANDS K) (pEQNB_BandDefinition (held (mInstance ctx'))))"
    using assms(2) by simp
  have "map Gain (take (MAX_NUM_BANDS K) (pEQNB_BandDefinition (held (mInstance ctx')))) ! i
      = mBandGaindB ctx' ! i"
    by (simp only: s(3))
  then have "Gain (pEQNB_BandDefinition (held (mInstance ctx')) ! i) = uninit i"
    using l2 a by simp
  with a s(2,3) show ?thesis by simp
qed

text \<open>Band 1 had the gain 3; the update names band 0 only and the slot held 77.\<close>

theorem omitted_bands_witness:
  "setEqualizerBandLevels exampleK (\<lambda>i. 77) [\<lparr>index = 0, levelMb = 500\<rparr>]
      (exampleCtx\<lparr>mBandGaindB := [3, 3, 3, 3, 3]\<rparr>) \<noteq> None
   \<and> (1 :: nat) < MAX_NUM_BANDS exampleK
   \<and> int 1 \<notin> index ` set [\<lparr>index = 0, levelMb = 500\<rparr>]
   \<and> mBandGaindB (exampleCtx\<lparr>mBandGaindB := [3, 3, 3, 3, 3]\<rparr>) ! 1 = 3
   \<and> mBandGaindB (snd (the (setEqualizerBandLevels exampleK (\<lambda>i. 77)
        [\<lparr>index = 0, levelMb = 500\<rparr>] (exampleCtx\<lparr>mBandGaindB := [3, 3, 3, 3, 3]\<rparr>)))) ! 1 = 77"
proof -
  let ?c = "exampleCtx\<lparr>mBandGaindB := [3, 3, 3, 3, 3]\<rparr>"
  let ?R = "setEqualizerBandLevels exampleK (\<lambda>i. 77) [\<lparr>index = 0, levelMb = 500\<rparr>] ?c"
  have "?R \<noteq> None \<and> fst (the ?R) = SUCCESS"
    by (simp add: setter_defs example_defs engine_defs upt_0_5 Let_def)
  then have s: "?R = Some (SUCCESS, snd (the ?R))" and n: "?R \<noteq> None"
    by (simp_all add: option_pair_the)
  have i: "(1 :: nat) < MAX_NUM_BANDS exampleK" by (simp add: exampleK_def)
  have o: "int 1 \<notin> index ` set [\<lparr>index = 0, levelMb = 500\<rparr>]" by simp
  have g: "mBandGaindB ?c ! 1 = 3" by simp
  from omitted_bands_take_uninitialised_values [OF s i o]
  have t: "mBandGaindB (snd (the ?R)) ! 1 = 77" by blast
  from n i o g t show ?thesis by blast
qed

subsection \<open>The drain\<close>

lemma effectBit_exp: "effectBit t = 2 ^ int_of_BundleEffectType t"
  by (simp add: effectBit_def push_bit_eq_mult)

lemma effectBit_set [simp]: "(m OR effectBit t) AND effectBit t \<noteq> 0"
  by (simp add: effectBit_exp and_exp_eq_0_iff_not_bit bit_simps)

lemma effectBit_cleared [simp]: "(m AND NOT (effectBit t)) AND effectBit t = 0"
  by (simp add: effectBit_exp and_exp_eq_0_iff_not_bit bit_simps)

lemma effectBit_not_undrained [simp]:
  "m AND effectBit t \<noteq> 0 \<Longrightarrow> (d AND NOT m) AND effectBit t = 0"
  by (simp add: effectBit_exp and_exp_eq_0_iff_not_bit bit_simps)

text \<open>
  In a context of type EQUALIZER the repair at the head of the bookkeeping never runs: it
  needs the bit of the type both set and clear in \<^verbatim>\<open>mEffectProcessCalled\<close>.
\<close>

lemma drainAccounting_EQUALIZER:
  assumes "mType ctx = EQUALIZER"
  shows "drainAccounting ctx samples =
     (let ctx = ctx\<lparr>mEffectProcessCalled := mEffectProcessCalled ctx OR effectBit EQUALIZER\<rparr>;
          (isDataAvailable, ctx) =
            (if \<not> mEnabled ctx
             then (let ctx = (if mSamplesToExitCountEq ctx > 0
                              then ctx\<lparr>mSamplesToExitCountEq :=
                                         mSamplesToExitCountEq ctx - samples\<rparr>
                              else ctx)
                   in if mSamplesToExitCountEq ctx \<le> 0
                      then (False,
                            if mEffectInDrain ctx AND effectBit EQUALIZER \<noteq> 0
                            then ctx\<lparr>mNumberEffectsEnabled := mNumberEffectsEnabled ctx - 1,
                                     mEffectInDrain :=
                                       mEffectInDrain ctx AND NOT (effectBit EQUALIZER)\<rparr>
                            else ctx)
                      else (True, ctx))
             else (True, ctx));
          ctx = (if isDataAvailable
                 then ctx\<lparr>mNumberEffectsCalled := mNumberEffectsCalled ctx + 1\<rparr> else ctx)
      in (isDataAvailable, ctx))"
proof (cases "mEffectProcessCalled ctx AND effectBit EQUALIZER \<noteq> 0")
  case True
  then have "(mEffectInDrain ctx AND NOT (mEffectProcessCalled ctx)) AND effectBit EQUALIZER = 0"
    by (rule effectBit_not_undrained)
  with True show ?thesis by (simp add: drainAccounting_def assms Let_def)
next
  case False
  then show ?thesis by (simp add: drainAccounting_def assms Let_def)
qed

lemma lvmProcess_running:
  assumes "running ctx"
  shows "fst (drainAccounting ctx n)"
    and "list_ex isProcess (newCalls ctx (snd (snd (lvmProcess ctx (Some i) (Some ob) n))))"
    and "running (snd (snd (lvmProcess ctx (Some i) (Some ob) n)))"
    and "mSamplesToExitCountEq (snd (snd (lvmProcess ctx (Some i) (Some ob) n)))
           = mSamplesToExitCountEq ctx"
    and "mEffectInDrain (snd (snd (lvmProcess ctx (Some i) (Some ob) n))) = mEffectInDrain ctx"
    and "fst (snd (lvmProcess ctx (Some i) (Some ob) n)) \<noteq> None"
  using assms
  by (simp_all add: running_def lvmProcess_def drainAccounting_EQUALIZER Let_def split_beta
      newCalls_def)

lemma lvmProcess_draining_more:
  assumes "draining B ctx" "0 \<le> n" "n < B"
  shows "fst (drainAccounting ctx n)"
    and "list_ex isProcess (newCalls ctx (snd (snd (lvmProcess ctx (Some i) (Some ob) n))))"
    and "draining (B - n) (snd (snd (lvmProcess ctx (Some i) (Some ob) n)))"
    and "fst (snd (lvmProcess ctx (Some i) (Some ob) n)) \<noteq> None"
  using assms
  by (simp_all add: draining_def lvmProcess_def drainAccounting_EQUALIZER Let_def split_beta
      newCalls_def)

lemma lvmProcess_draining_last:
  assumes "draining B ctx" "0 \<le> n" "B \<le> n"
  shows "\<not> fst (drainAccounting ctx n)"
    and "list_ex isProcess (newCalls ctx (snd (snd (lvmProcess ctx (Some i) (Some ob) n))))"
    and "drained (snd (snd (lvmProcess ctx (Some i) (Some ob) n)))"
    and "fst (snd (lvmProcess ctx (Some i) (Some ob) n)) \<noteq> None"
  using assms
  by (simp_all add: draining_def drained_def lvmProcess_def drainAccounting_EQUALIZER Let_def
      split_beta newCalls_def)

lemma lvmProcess_drained:
  assumes "drained ctx"
  shows "\<not> fst (drainAccounting ctx n)"
    and "list_ex isProcess (newCalls ctx (snd (snd (lvmProcess ctx (Some i) (Some ob) n))))"
    and "drained (snd (snd (lvmProcess ctx (Some i) (Some ob) n)))"
    and "fst (snd (lvmProcess ctx (Some i) (Some ob) n)) \<noteq> None"
  using assms
  by (simp_all add: drained_def lvmProcess_def drainAccounting_EQUALIZER Let_def
      split_beta newCalls_def)

lemma enable_from_idle:
  assumes "mType ctx = EQUALIZER" "\<not> mEnabled ctx" "mSamplesToExitCountEq ctx \<le> 0"
    "mNumberEffectsEnabled ctx = 0" "mNumberEffectsCalled ctx = 0"
    "inputFrameCount ctx = outputFrameCount ctx" "inputFrameSize ctx \<noteq> 0"
  shows "running (snd (enable K ctx))"
    and "mSamplesToExitCountEq (snd (enable K ctx)) = tenthOf (mSamplesPerSecond ctx)"
  using assms by (simp_all add: enable_unfold running_def)

lemma disable_from_running:
  assumes "running ctx"
  shows "draining (mSamplesToExitCountEq ctx) (snd (disable K ctx))"
proof -
  from assms have en: "mEnabled ctx" and ty: "mType ctx = EQUALIZER" by (simp_all add: running_def)
  let ?c = "ctx\<lparr>mEffectInDrain := mEffectInDrain ctx OR effectBit EQUALIZER, mEnabled := False\<rparr>"
  have d: "disable K ctx = disableOperatingMode K ?c" by (simp add: disable_unfold [OF en] ty)
  have "\<not> mEnabled (snd (disableOperatingMode K ?c))"
    by (rule disableOperatingMode_mEnabled) simp
  with assms show ?thesis by (simp add: d draining_def running_def)
qed

lemma lvmProcessAll_running:
  "running ctx \<Longrightarrow>
   running (lvmProcessAll ctx inBuf outBuf ms)
   \<and> mSamplesToExitCountEq (lvmProcessAll ctx inBuf outBuf ms) = mSamplesToExitCountEq ctx"
proof (induction ms arbitrary: ctx outBuf)
  case Nil
  then show ?case by simp
next
  case (Cons m ms)
  let ?r = "lvmProcess ctx (Some inBuf) (Some outBuf) m"
  note step = lvmProcess_running [OF Cons.prems]
  have c: "running (snd (snd ?r))" by (rule step(3))
  from Cons.IH [OF c] step(4) show ?case by (simp add: split_beta)
qed

lemma lvmProcessRun_drained:
  "drained ctx \<Longrightarrow> B \<le> done \<Longrightarrow> list_all (\<lambda>n. 0 \<le> n) ns \<Longrightarrow>
   lvmProcessRun ctx inBuf outBuf ns = drainExpected B done ns"
proof (induction ns arbitrary: ctx outBuf "done")
  case Nil
  then show ?case by simp
next
  case (Cons n ns)
  from Cons.prems(3) have n: "0 \<le> n" and ns: "list_all (\<lambda>n. 0 \<le> n) ns" by simp_all
  note step = lvmProcess_drained [OF Cons.prems(1)]
  from Cons.prems(2) n have d: "B \<le> done + n" by simp
  let ?c = "snd (snd (lvmProcess ctx (Some inBuf) (Some outBuf) n))"
  have c: "drained ?c" by (rule step(3))
  then have e: "mNumberEffectsEnabled ?c = 0" by (simp add: drained_def)
  from Cons.IH [OF c d ns] step(1,2) d e show ?case by (simp add: split_beta)
qed

lemma lvmProcessRun_draining:
  "draining (B - done) ctx \<Longrightarrow> list_all (\<lambda>n. 0 \<le> n) ns \<Longrightarrow>
   lvmProcessRun ctx inBuf outBuf ns = drainExpected B done ns"
proof (induction ns arbitrary: ctx outBuf "done")
  case Nil
  then show ?case by simp
next
  case (Cons n ns)
  from Cons.prems(2) have n: "0 \<le> n" and ns: "list_all (\<lambda>n. 0 \<le> n) ns" by simp_all
  let ?c = "snd (snd (lvmProcess ctx (Some inBuf) (Some outBuf) n))"
  show ?case
  proof (cases "n < B - done")
    case True
    note step = lvmProcess_draining_more [OF Cons.prems(1) n True]
    have "draining (B - done - n) ?c" by (rule step(3))
    then have d: "draining (B - (done + n)) ?c" by (simp add: algebra_simps)
    then have e: "mNumberEffectsEnabled ?c = 1" by (simp add: draining_def)
    from True have lt: "done + n < B" by simp
    from Cons.IH [OF d ns] step(1,2) e lt show ?thesis by (simp add: split_beta)
  next
    case False
    then have ge: "B - done \<le> n" by simp
    note step = lvmProcess_draining_last [OF Cons.prems(1) n ge]
    have c: "drained ?c" by (rule step(3))
    then have e: "mNumberEffectsEnabled ?c = 0" by (simp add: drained_def)
    from False have nlt: "\<not> done + n < B" and d: "B \<le> done + n" by simp_all
    from lvmProcessRun_drained [OF c d ns] step(1,2) e nlt show ?thesis
      by (simp add: split_beta)
  qed
qed

text \<open>
  Claim C1, as amended. Take an equalizer context that is idle (not enabled, no budget
  left, both counters 0) and whose frame parameters pass the checks of \<^verbatim>\<open>lvmProcess\<close>.
  After \<^verbatim>\<open>enable()\<close>, any calls of \<^verbatim>\<open>lvmProcess\<close> while enabled, and \<^verbatim>\<open>disable()\<close>,
  the following calls of \<^verbatim>\<open>lvmProcess\<close> with non-negative sample counts behave as
  \<open>drainExpected\<close> says for the budget \<open>tenthOf mSamplesPerSecond\<close> set at the enable:
  \<^verbatim>\<open>isDataAvailable\<close> stays true exactly while the samples counted since the disable
  (this call included) are fewer than the budget; from the call that reaches the budget
  on it is false; \<^verbatim>\<open>mNumberEffectsEnabled\<close> is 1 before that call and 0 from it on, one
  decrement in all; and every call, with or without data, hands the buffer to
  \<^verbatim>\<open>LVM_Process\<close>. Samples processed while enabled do not count against the budget.
\<close>

theorem drain_after_disable:
  assumes "mType ctx = EQUALIZER" "\<not> mEnabled ctx" "mSamplesToExitCountEq ctx \<le> 0"
    "mNumberEffectsEnabled ctx = 0" "mNumberEffectsCalled ctx = 0"
    "inputFrameCount ctx = outputFrameCount ctx" "inputFrameSize ctx \<noteq> 0"
    and "list_all (\<lambda>n. 0 \<le> n) ns"
  shows "lvmProcessRun
           (snd (disable K (lvmProcessAll (snd (enable K ctx)) inBuf outBuf ms)))
           inBuf outBuf' ns
         = drainExpected (tenthOf (mSamplesPerSecond ctx)) 0 ns"
proof -
  note en = enable_from_idle [OF assms(1-7), of K]
  from lvmProcessAll_running [OF en(1), of inBuf outBuf ms] en(2)
  have r: "running (lvmProcessAll (snd (enable K ctx)) inBuf outBuf ms)"
    and b: "mSamplesToExitCountEq (lvmProcessAll (snd (enable K ctx)) inBuf outBuf ms)
            = tenthOf (mSamplesPerSecond ctx)"
    by simp_all
  from disable_from_running [OF r, of K] b
  have "draining (tenthOf (mSamplesPerSecond ctx) - 0)
          (snd (disable K (lvmProcessAll (snd (enable K ctx)) inBuf outBuf ms)))"
    by simp
  from lvmProcessRun_draining [OF this assms(8)] show ?thesis .
qed

lemmas process_defs = enable_def disable_def enableOperatingMode_def disableOperatingMode_def
  limitLevel_def gainCorrectionOf_def effectLevelOf_def int_of_double_def tenthOf_def
  effectBit_def lvmProcess_def drainAccounting_def framesOf_def

text \<open>
  The scenario of the spec: 44100 samples per second, 2000 samples while enabled, then
  the disable and two buffers of 3000 samples.
\<close>

theorem drain_after_disable_witness:
  "mType exampleCtx = EQUALIZER \<and> \<not> mEnabled exampleCtx
   \<and> mSamplesToExitCountEq exampleCtx \<le> 0
   \<and> mNumberEffectsEnabled exampleCtx = 0 \<and> mNumberEffectsCalled exampleCtx = 0
   \<and> inputFrameCount exampleCtx = outputFrameCount exampleCtx
   \<and> inputFrameSize exampleCtx \<noteq> 0
   \<and> list_all (\<lambda>n. 0 \<le> n) [3000, 3000 :: int]
   \<and> lvmProcessRun
         (snd (disable exampleK (lvmProcessAll (snd (enable exampleK exampleCtx))
                    (replicate 3000 0) (replicate 3000 0) [2000])))
         (replicate 3000 0) (replicate 3000 0) [3000, 3000]
       = [(True, True, 1), (False, True, 0)]"
proof -
  have a: "mType exampleCtx = EQUALIZER" "\<not> mEnabled exampleCtx"
    "mSamplesToExitCountEq exampleCtx \<le> 0"
    "mNumberEffectsEnabled exampleCtx = 0" "mNumberEffectsCalled exampleCtx = 0"
    "inputFrameCount exampleCtx = outputFrameCount exampleCtx"
    "inputFrameSize exampleCtx \<noteq> 0"
    by (simp_all add: exampleCtx_def)
  have l: "list_all (\<lambda>n. 0 \<le> n) [3000, 3000 :: int]" by simp
  have "tenthOf (mSamplesPerSecond exampleCtx) = 4410" by (simp add: exampleCtx_def tenthOf_def)
  with drain_after_disable [OF a l, of exampleK "replicate 3000 0" "replicate 3000 0" "[2000]"
      "replicate 3000 0"] a l
  show ?thesis by simp
qed

text \<open>
  Claim C1 as stated fails where it calls the drained state pass-through. In the small
  drain above the next buffer of 6 samples exhausts the budget: \<^verbatim>\<open>isDataAvailable\<close>
  becomes false and the enabled count drops from 1 to 0, yet the call makes the engine's
  process call for the 3 frames and returns the engine's output (silence here), not the
  copy of the input.
\<close>

theorem drained_call_still_processed:
  "\<not> fst (drainAccounting exampleDrainCtx 6)
   \<and> newCalls exampleDrainCtx
        (snd (snd (lvmProcess exampleDrainCtx (Some [1, 1, 1, 1, 1, 1]) (Some [2, 2, 2, 2, 2, 2]) 6)))
      = [Process 3 LVM_SUCCESS]
   \<and> fst (snd (lvmProcess exampleDrainCtx (Some [1, 1, 1, 1, 1, 1]) (Some [2, 2, 2, 2, 2, 2]) 6))
      = Some [0, 0, 0, 0, 0, 0]
   \<and> mNumberEffectsEnabled exampleDrainCtx = 1
   \<and> mNumberEffectsEnabled
        (snd (snd (lvmProcess exampleDrainCtx (Some [1, 1, 1, 1, 1, 1]) (Some [2, 2, 2, 2, 2, 2]) 6)))
      = 0"
  by (simp add: exampleDrainCtx_def process_defs example_estimate exampleCtx_def exampleEngine_def
      engine_defs newCalls_def Let_def)

end
